theory Spec2Isabelle
  imports Complex_Main
begin

section \<open>NutriBot: the questionnaire state machine and the nutrition arithmetic\<close>

text \<open>
  A shallow embedding of \<^verbatim>\<open>nutri_bot.py\<close>: the calculation functions
  \<^verbatim>\<open>calculate_bmr\<close>, \<^verbatim>\<open>calculate_daily_calories\<close>, \<^verbatim>\<open>calculate_macros\<close>, the message
  handlers registered on the dispatcher, and the dispatcher's choice of the first handler
  whose filter accepts a message.
\<close>

subsection \<open>Strings and numbers of the source language\<close>

text \<open>
  A Python \<^verbatim>\<open>str\<close> is a sequence of Unicode code points, and \<^verbatim>\<open>len\<close> counts code points.
  The labels of the bot are Cyrillic, so a string is a list of code points here.
\<close>

type_synonym pystr = "nat list"

text \<open>
  A Python \<^verbatim>\<open>float\<close> is an IEEE 754 binary64 number: a finite value with a significand of
  53 bits and an exponent between \<open>-1022\<close> and \<open>1023\<close> (subnormal numbers share the
  smallest exponent), an infinity, or NaN. A finite float is carried by the real number it
  denotes, so the two zeros are one value; no operation of the program tells them apart.
  Every arithmetic operation yields the exact result rounded to the nearest float, a tie
  going to the even significand, and a result whose rounding reaches \<open>2 ^ 1024\<close> is an
  infinity.
\<close>

datatype pyfloat = Fin real | PInf | NInf | NaN

datatype py_error = ValueError | OverflowError | KeyError | ZeroDivisionError

text \<open>
  The binary exponent of a real number, found by stepping from exponent 0: the \<open>e\<close> with
  \<open>2 ^ e \<le> \<bar>x\<bar> < 2 ^ (e + 1)\<close>, kept within the range of the format.
\<close>

function exp_up :: "real \<Rightarrow> int \<Rightarrow> int" where
  "exp_up x e = (if e < 1023 \<and> 2 powi (e + 1) \<le> x then exp_up x (e + 1) else e)"
  by pat_completeness auto
termination
  by (relation "measure (\<lambda>(x, e). nat (1023 - e))") auto

function exp_down :: "real \<Rightarrow> int \<Rightarrow> int" where
  "exp_down x e = (if - 1022 < e \<and> x < 2 powi e then exp_down x (e - 1) else e)"
  by pat_completeness auto
termination
  by (relation "measure (\<lambda>(x, e). nat (e + 1022))") auto

declare exp_up.simps [simp del] exp_down.simps [simp del]

definition exponent :: "real \<Rightarrow> int" where
  "exponent x = (if 1 \<le> \<bar>x\<bar> then exp_up \<bar>x\<bar> 0 else exp_down \<bar>x\<bar> 0)"

text \<open>
  Rounding to the nearest integer with a tie going to the even neighbour. It is the
  rounding of a significand below, and it is Python's \<^verbatim>\<open>round(x)\<close> with one argument.
\<close>

definition round_half_even :: "real \<Rightarrow> int" where
  "round_half_even x =
     (let f = \<lfloor>x\<rfloor>; d = x - of_int f
      in if d < 1 / 2 then f
         else if 1 / 2 < d then f + 1
         else if even f then f else f + 1)"

text \<open>
  The float nearest to a real number: the significand is rounded at the unit in the last
  place of the number's exponent.
\<close>

definition rnd :: "real \<Rightarrow> pyfloat" where
  "rnd x =
     (let u = 2 powi (exponent x - 52);
          y = of_int (round_half_even (x / u)) * u
      in if 2 powi 1024 \<le> \<bar>y\<bar> then (if 0 < x then PInf else NInf) else Fin y)"

text \<open>A decimal literal of the source text denotes the float nearest to it.\<close>

definition float_literal :: "real \<Rightarrow> pyfloat" where
  "float_literal x = rnd x"

fun fl_neg :: "pyfloat \<Rightarrow> pyfloat" where
  "fl_neg (Fin x) = Fin (- x)"
| "fl_neg PInf = NInf"
| "fl_neg NInf = PInf"
| "fl_neg NaN = NaN"

fun fl_add :: "pyfloat \<Rightarrow> pyfloat \<Rightarrow> pyfloat" where
  "fl_add (Fin x) (Fin y) = rnd (x + y)"
| "fl_add NaN _ = NaN"
| "fl_add _ NaN = NaN"
| "fl_add PInf NInf = NaN"
| "fl_add NInf PInf = NaN"
| "fl_add PInf _ = PInf"
| "fl_add NInf _ = NInf"
| "fl_add _ PInf = PInf"
| "fl_add _ NInf = NInf"

definition fl_sub :: "pyfloat \<Rightarrow> pyfloat \<Rightarrow> pyfloat" where
  "fl_sub a b = fl_add a (fl_neg b)"

fun fl_inf_times :: "bool \<Rightarrow> real \<Rightarrow> pyfloat" where
  "fl_inf_times positive y =
     (if y = 0 then NaN else if (0 < y) = positive then PInf else NInf)"

fun fl_mul :: "pyfloat \<Rightarrow> pyfloat \<Rightarrow> pyfloat" where
  "fl_mul (Fin x) (Fin y) = rnd (x * y)"
| "fl_mul NaN _ = NaN"
| "fl_mul _ NaN = NaN"
| "fl_mul PInf (Fin y) = fl_inf_times True y"
| "fl_mul NInf (Fin y) = fl_inf_times False y"
| "fl_mul (Fin x) PInf = fl_inf_times True x"
| "fl_mul (Fin x) NInf = fl_inf_times False x"
| "fl_mul PInf PInf = PInf"
| "fl_mul NInf NInf = PInf"
| "fl_mul PInf NInf = NInf"
| "fl_mul NInf PInf = NInf"

text \<open>Division: Python raises \<^verbatim>\<open>ZeroDivisionError\<close> for a zero divisor, whatever the dividend.\<close>

fun fl_div :: "pyfloat \<Rightarrow> pyfloat \<Rightarrow> py_error + pyfloat" where
  "fl_div a (Fin y) =
     (if y = 0 then Inl ZeroDivisionError
      else Inr (case a of
                  Fin x \<Rightarrow> rnd (x / y)
                | NaN \<Rightarrow> NaN
                | PInf \<Rightarrow> if 0 < y then PInf else NInf
                | NInf \<Rightarrow> if 0 < y then NInf else PInf))"
| "fl_div NaN _ = Inr NaN"
| "fl_div _ NaN = Inr NaN"
| "fl_div (Fin x) _ = Inr (Fin 0)"
| "fl_div _ _ = Inr NaN"

text \<open>Comparison: every comparison with NaN is false.\<close>

fun fl_less :: "pyfloat \<Rightarrow> pyfloat \<Rightarrow> bool" where
  "fl_less (Fin x) (Fin y) = (x < y)"
| "fl_less NaN _ = False"
| "fl_less _ NaN = False"
| "fl_less NInf NInf = False"
| "fl_less NInf _ = True"
| "fl_less PInf _ = False"
| "fl_less (Fin x) PInf = True"
| "fl_less (Fin x) NInf = False"

text \<open>
  An \<^verbatim>\<open>int\<close> operand of a float operation is converted to the nearest float; Python raises
  \<^verbatim>\<open>OverflowError\<close> when the integer is too large for a finite float.
\<close>

definition fl_of_int :: "int \<Rightarrow> py_error + pyfloat" where
  "fl_of_int n = (case rnd (of_int n) of Fin y \<Rightarrow> Inr (Fin y) | _ \<Rightarrow> Inl OverflowError)"

text \<open>\<^verbatim>\<open>round(x)\<close> with one argument; it raises on NaN and on an infinity.\<close>

fun py_round :: "pyfloat \<Rightarrow> py_error + int" where
  "py_round (Fin x) = Inr (round_half_even x)"
| "py_round NaN = Inl ValueError"
| "py_round PInf = Inl OverflowError"
| "py_round NInf = Inl OverflowError"

text \<open>Sequencing of computations that may raise: the first exception ends the computation.\<close>

definition bind_result :: "py_error + 'a \<Rightarrow> ('a \<Rightarrow> py_error + 'b) \<Rightarrow> py_error + 'b" where
  "bind_result r f = (case r of Inl e \<Rightarrow> Inl e | Inr x \<Rightarrow> f x)"

subsection \<open>The labels\<close>

definition male_label :: pystr where
  "male_label = [1052, 1091, 1078, 1089, 1082, 1086, 1081]"

definition female_label :: pystr where
  "female_label = [1046, 1077, 1085, 1089, 1082, 1080, 1081]"

definition activity_minimal :: pystr where
  "activity_minimal = [1052, 1080, 1085, 1080, 1084, 1072, 1083, 1100, 1085, 1072, 1103]"

definition activity_low :: pystr where
  "activity_low = [1053, 1080, 1079, 1082, 1072, 1103]"

definition activity_medium :: pystr where
  "activity_medium = [1057, 1088, 1077, 1076, 1085, 1103, 1103]"

definition activity_high :: pystr where
  "activity_high = [1042, 1099, 1089, 1086, 1082, 1072, 1103]"

definition activity_very_high :: pystr where
  "activity_very_high =
     [1054, 1095, 1077, 1085, 1100, 32, 1074, 1099, 1089, 1086, 1082, 1072, 1103]"

definition goal_lose :: pystr where
  "goal_lose = [1055, 1086, 1093, 1091, 1076, 1077, 1090, 1100]"

definition goal_maintain :: pystr where
  "goal_maintain =
     [1055, 1086, 1076, 1076, 1077, 1088, 1078, 1080, 1074, 1072, 1090, 1100, 32,
      1092, 1086, 1088, 1084, 1091]"

definition goal_gain :: pystr where
  "goal_gain = [1053, 1072, 1073, 1088, 1072, 1090, 1100, 32, 1084, 1072, 1089, 1089, 1091]"

subsection \<open>The coefficient tables\<close>

text \<open>
  The two module-level dictionaries, as association lists in the order written. The goal
  table holds the integer \<^verbatim>\<open>0\<close> for the maintain label; in the arithmetic below it takes
  part as the float zero, and \<^verbatim>\<open>-0.2\<close> is the negation of the literal \<^verbatim>\<open>0.2\<close>.
\<close>

definition ACTIVITY_COEFFICIENTS :: "(pystr \<times> pyfloat) list" where
  "ACTIVITY_COEFFICIENTS =
     [(activity_minimal, float_literal 1.2), (activity_low, float_literal 1.375),
      (activity_medium, float_literal 1.55), (activity_high, float_literal 1.725),
      (activity_very_high, float_literal 1.9)]"

definition GOAL_COEFFICIENTS :: "(pystr \<times> pyfloat) list" where
  "GOAL_COEFFICIENTS =
     [(goal_lose, fl_neg (float_literal 0.2)), (goal_maintain, Fin 0),
      (goal_gain, float_literal 0.2)]"

text \<open>\<^verbatim>\<open>d.get(key, default)\<close> and \<^verbatim>\<open>key in d\<close>.\<close>

definition dict_get :: "('k \<times> 'v) list \<Rightarrow> 'k \<Rightarrow> 'v \<Rightarrow> 'v" where
  "dict_get d k dflt = (case map_of d k of None \<Rightarrow> dflt | Some v \<Rightarrow> v)"

definition dict_contains :: "('k \<times> 'v) list \<Rightarrow> 'k \<Rightarrow> bool" where
  "dict_contains d k = (map_of d k \<noteq> None)"

subsection \<open>The calculation functions\<close>

text \<open>
  \<^verbatim>\<open>calculate_bmr\<close>: the products \<^verbatim>\<open>10 * weight\<close> and \<^verbatim>\<open>6.25 * height\<close>, their sum, the
  subtraction of the integer \<^verbatim>\<open>5 * age\<close> (converted to a float, which is the one step that
  can raise), and the last constant, each operation rounded.
\<close>

definition calculate_bmr :: "pystr \<Rightarrow> pyfloat \<Rightarrow> pyfloat \<Rightarrow> int \<Rightarrow> py_error + pyfloat" where
  "calculate_bmr gender weight height age =
     (if gender = male_label
      then bind_result (fl_of_int (5 * age)) (\<lambda>t.
             Inr (fl_add (fl_sub (fl_add (fl_mul (Fin 10) weight)
                                         (fl_mul (float_literal 6.25) height)) t)
                         (Fin 5)))
      else bind_result (fl_of_int (5 * age)) (\<lambda>t.
             Inr (fl_sub (fl_sub (fl_add (fl_mul (Fin 10) weight)
                                         (fl_mul (float_literal 6.25) height)) t)
                         (Fin 161))))"

definition calculate_daily_calories :: "pyfloat \<Rightarrow> pystr \<Rightarrow> pystr \<Rightarrow> py_error + int" where
  "calculate_daily_calories bmr activity goal =
     (let activity_coef = dict_get ACTIVITY_COEFFICIENTS activity (float_literal 1.2);
          goal_coef = dict_get GOAL_COEFFICIENTS goal (Fin 0);
          tdee = fl_mul bmr activity_coef;
          adjusted_calories = fl_mul tdee (fl_add (Fin 1) goal_coef)
      in py_round adjusted_calories)"

record macros =
  protein :: int
  fat :: int
  carbs :: int

text \<open>
  The argument is an \<^verbatim>\<open>int\<close>; multiplying it by a float converts it first, and that
  conversion raises \<^verbatim>\<open>OverflowError\<close> for an integer beyond the range of the floats.
\<close>

definition calculate_macros :: "int \<Rightarrow> py_error + macros" where
  "calculate_macros calories =
     bind_result (fl_of_int calories) (\<lambda>c.
       let protein_calories = fl_mul c (float_literal 0.30);
           fat_calories = fl_mul c (float_literal 0.25);
           carb_calories = fl_mul c (float_literal 0.45)
       in bind_result (fl_div protein_calories (Fin 4)) (\<lambda>p.
          bind_result (py_round p) (\<lambda>protein_g.
          bind_result (fl_div fat_calories (Fin 9)) (\<lambda>f.
          bind_result (py_round f) (\<lambda>fat_g.
          bind_result (fl_div carb_calories (Fin 4)) (\<lambda>cb.
          bind_result (py_round cb) (\<lambda>carbs_g.
            Inr \<lparr> protein = protein_g, fat = fat_g, carbs = carbs_g \<rparr>)))))))"

subsection \<open>Parsing numbers: \<^verbatim>\<open>int(text)\<close> and \<^verbatim>\<open>float(text)\<close>\<close>

text \<open>
  The two built-in conversions on a string, as CPython 3.11 performs them: surrounding
  white space is dropped, a sign may come first, the digits are the decimal digits of any
  script in Unicode 14 and may be grouped by single underscores, and \<^verbatim>\<open>float\<close> also reads a
  fraction, an exponent and the words \<^verbatim>\<open>inf\<close>, \<^verbatim>\<open>infinity\<close> and \<^verbatim>\<open>nan\<close> in any letter
  case. \<open>None\<close> is the \<^verbatim>\<open>ValueError\<close> of the source. \<^verbatim>\<open>int\<close> refuses a numeral of
  more than 4300 digits (the interpreter's default limit), and \<^verbatim>\<open>float\<close> yields the float
  nearest to the decimal numeral, an infinity when the numeral is beyond the finite floats.
\<close>

text \<open>
  The white space that the conversions drop: the ASCII characters that C's \<^verbatim>\<open>isspace\<close>
  accepts, and the white space of Unicode outside ASCII. The separators 28 to 31 are not
  among them.
\<close>

definition is_space :: "nat \<Rightarrow> bool" where
  "is_space c =
     (c \<in> set [9, 10, 11, 12, 13, 32, 133, 160, 5760, 8192, 8193, 8194, 8195, 8196, 8197,
               8198, 8199, 8200, 8201, 8202, 8232, 8233, 8239, 8287, 12288])"

definition strip :: "pystr \<Rightarrow> pystr" where
  "strip s = rev (dropWhile is_space (rev (dropWhile is_space s)))"

text \<open>
  The code point of the digit zero in every script that has decimal digits; the ten digits
  of a script are consecutive code points.
\<close>

definition decimal_zeros :: "nat list" where
  "decimal_zeros =
     [48, 1632, 1776, 1984, 2406, 2534, 2662, 2790, 2918, 3046, 3174, 3302, 3430, 3558,
      3664, 3792, 3872, 4160, 4240, 6112, 6160, 6470, 6608, 6784, 6800, 6992, 7088, 7232,
      7248, 42528, 43216, 43264, 43472, 43504, 43600, 44016, 65296, 66720, 68912, 69734,
      69872, 69942, 70096, 70384, 70736, 70864, 71248, 71360, 71472, 71904, 72016, 72784,
      73040, 73120, 92768, 92864, 93008, 120782, 120792, 120802, 120812, 120822, 123200,
      123632, 125264, 130032]"

definition digit_value :: "nat \<Rightarrow> nat option" where
  "digit_value c =
     (case filter (\<lambda>z. z \<le> c \<and> c < z + 10) decimal_zeros of
        [] \<Rightarrow> None
      | z # _ \<Rightarrow> Some (c - z))"

definition to_lower :: "nat \<Rightarrow> nat" where
  "to_lower c = (if 65 \<le> c \<and> c \<le> 90 then c + 32 else c)"

text \<open>
  The digits read so far, then the rest of the text: a digit continues the numeral, and so
  does an underscore that a digit follows.
\<close>

fun digits_more :: "nat list \<Rightarrow> pystr \<Rightarrow> nat list \<times> pystr" where
  "digits_more acc (c # d # cs) =
     (case digit_value c of
        Some v \<Rightarrow> digits_more (acc @ [v]) (d # cs)
      | None \<Rightarrow>
          if c = 95
          then (case digit_value d of
                  Some w \<Rightarrow> digits_more (acc @ [w]) cs
                | None \<Rightarrow> (acc, c # d # cs))
          else (acc, c # d # cs))"
| "digits_more acc [c] =
     (case digit_value c of Some v \<Rightarrow> (acc @ [v], []) | None \<Rightarrow> (acc, [c]))"
| "digits_more acc [] = (acc, [])"

definition digitpart :: "pystr \<Rightarrow> nat list \<times> pystr" where
  "digitpart s =
     (case s of
        [] \<Rightarrow> ([], [])
      | c # cs \<Rightarrow> (case digit_value c of Some v \<Rightarrow> digits_more [v] cs | None \<Rightarrow> ([], s)))"

definition digits_value :: "nat list \<Rightarrow> nat" where
  "digits_value ds = foldl (\<lambda>acc d. 10 * acc + d) 0 ds"

text \<open>An optional sign: whether it is a minus, and the text after it.\<close>

definition split_sign :: "pystr \<Rightarrow> bool \<times> pystr" where
  "split_sign s =
     (case s of
        [] \<Rightarrow> (False, [])
      | c # cs \<Rightarrow> if c = 45 then (True, cs) else if c = 43 then (False, cs) else (False, s))"

definition py_int :: "pystr \<Rightarrow> int option" where
  "py_int s =
     (let (negative, body) = split_sign (strip s);
          (ds, rest) = digitpart body
      in if ds = [] \<or> rest \<noteq> [] \<or> 4300 < length ds then None
         else Some (if negative then - int (digits_value ds) else int (digits_value ds)))"

definition word_inf :: pystr where
  "word_inf = [105, 110, 102]"

definition word_infinity :: pystr where
  "word_infinity = [105, 110, 102, 105, 110, 105, 116, 121]"

definition word_nan :: pystr where
  "word_nan = [110, 97, 110]"

text \<open>The exponent part: empty text is exponent 0, otherwise \<^verbatim>\<open>e\<close> or \<^verbatim>\<open>E\<close>, a sign, digits.\<close>

definition exponent_part :: "pystr \<Rightarrow> int option" where
  "exponent_part s =
     (case s of
        [] \<Rightarrow> Some 0
      | c # cs \<Rightarrow>
          if c = 101 \<or> c = 69
          then (let (negative, body) = split_sign cs;
                    (ds, rest) = digitpart body
                in if ds = [] \<or> rest \<noteq> [] then None
                   else Some (if negative then - int (digits_value ds)
                              else int (digits_value ds)))
          else None)"

definition scale10 :: "real \<Rightarrow> int \<Rightarrow> real" where
  "scale10 m e = (if 0 \<le> e then m * 10 ^ nat e else m / 10 ^ nat (- e))"

text \<open>The value of a decimal numeral without its sign, as a real number.\<close>

definition float_number :: "pystr \<Rightarrow> real option" where
  "float_number s =
     (let (ip, r1) = digitpart s;
          (dot, fp, r2) = (case r1 of
                             [] \<Rightarrow> (False, [], [])
                           | c # cs \<Rightarrow> if c = 46 then (let (fp, r) = digitpart cs in (True, fp, r))
                                      else (False, [], r1))
      in if ip = [] \<and> fp = [] then None
         else (case exponent_part r2 of
                 None \<Rightarrow> None
               | Some e \<Rightarrow>
                   Some (scale10 (of_nat (digits_value (ip @ fp))) (e - int (length fp)))))"

definition py_float :: "pystr \<Rightarrow> pyfloat option" where
  "py_float s =
     (let (negative, body) = split_sign (strip s);
          word = map to_lower body
      in if word = word_inf \<or> word = word_infinity then Some (if negative then NInf else PInf)
         else if word = word_nan then Some NaN
         else (case float_number body of
                 None \<Rightarrow> None
               | Some x \<Rightarrow> Some (rnd (if negative then - x else x))))"

text \<open>\<^verbatim>\<open>text.replace(',', '.')\<close>\<close>

definition replace_comma :: "pystr \<Rightarrow> pystr" where
  "replace_comma s = map (\<lambda>c. if c = 44 then 46 else c) s"

text \<open>\<^verbatim>\<open>str(n)\<close> for a natural number, as the f-string of the menu message formats it.\<close>

fun str_of_nat :: "nat \<Rightarrow> pystr" where
  "str_of_nat n = (if n < 10 then [48 + n] else str_of_nat (n div 10) @ [48 + n mod 10])"

subsection \<open>The session: FSM state and stored answers\<close>

datatype UserStates = S_gender | S_age | S_weight | S_height | S_activity | S_goal | S_menu

text \<open>
  The data dictionary of the FSM context has a fixed set of keys, each with its own type
  of value; a key that is absent is \<open>None\<close>.
\<close>

record user_data =
  gender :: "pystr option"
  age :: "int option"
  weight :: "pyfloat option"
  height :: "pyfloat option"
  activity :: "pystr option"
  goal :: "pystr option"
  bmr :: "pyfloat option"
  daily_calories :: "int option"
  macros :: "macros option"

definition empty_data :: user_data where
  "empty_data =
     \<lparr> gender = None, age = None, weight = None, height = None, activity = None,
       goal = None, bmr = None, daily_calories = None, macros = None \<rparr>"

record session =
  state :: "UserStates option"
  data :: user_data

text \<open>The context of a conversation that has not been seen yet, and after \<^verbatim>\<open>state.clear()\<close>.\<close>

definition fresh_session :: session where
  "fresh_session = \<lparr> state = None, data = empty_data \<rparr>"

text \<open>
  An incoming text message: its text, and the command that the framework's command filter
  reads from it (\<open>None\<close> when the text is not a command).
\<close>

record message =
  msg_text :: pystr
  msg_command :: "pystr option"

definition cmd_name_start :: pystr where
  "cmd_name_start = [115, 116, 97, 114, 116]"

definition cmd_name_cancel :: pystr where
  "cmd_name_cancel = [99, 97, 110, 99, 101, 108]"

definition plain :: "pystr \<Rightarrow> message" where
  "plain t = \<lparr> msg_text = t, msg_command = None \<rparr>"

definition command_message :: "pystr \<Rightarrow> message" where
  "command_message c = \<lparr> msg_text = 47 # c, msg_command = Some c \<rparr>"

text \<open>
  What the external generation service does when it is called: it returns a text or
  raises one of the exceptions that \<^verbatim>\<open>generate_menu\<close> tells apart. A response without
  a text makes \<^verbatim>\<open>len\<close> raise inside the \<^verbatim>\<open>try\<close> block and is handled by the last
  \<^verbatim>\<open>except\<close> clause, so it counts as \<open>OtherException\<close>. Only text messages of the user
  are represented, and what the transport does with a message it is given is not.
\<close>

datatype service_result =
    Plan pystr
  | AuthenticationError
  | RateLimitError
  | APIError pystr
  | OtherException

text \<open>
  The messages a handler sends. A message whose text depends on the session carries the
  values that are formatted into it; the menu messages carry their whole text.
\<close>

datatype reply =
    Welcome
  | Farewell
  | Ask_age pystr
  | Age_out_of_range
  | Not_a_number
  | Ask_weight int
  | Weight_out_of_range
  | Ask_height pyfloat
  | Height_out_of_range
  | Ask_activity pyfloat
  | Choose_option
  | Ask_goal pystr
  | Result pystr int pyfloat pyfloat pystr pystr int int macros
  | My_data "pystr option" "int option" "pyfloat option" "pyfloat option" "pystr option"
      "pystr option" int int int int int
  | Ask_gender_again
  | Generating
  | Menu_message pystr
  | Auth_failed
  | Rate_limited
  | Api_failed pystr
  | Generation_failed

text \<open>
  A handler returns the session it leaves, the messages it sent, and the exception that
  escaped it, if one did.
\<close>

type_synonym outcome = "session \<times> reply list \<times> py_error option"

subsection \<open>The handlers\<close>

definition cmd_start :: "message \<Rightarrow> session \<Rightarrow> outcome" where
  "cmd_start m s = (s\<lparr>state := Some S_gender\<rparr>, [Welcome], None)"

definition cmd_cancel :: "message \<Rightarrow> session \<Rightarrow> outcome" where
  "cmd_cancel m s = (\<lparr> state = None, data = empty_data \<rparr>, [Farewell], None)"

definition process_gender :: "message \<Rightarrow> session \<Rightarrow> outcome" where
  "process_gender m s =
     (let user_gender = msg_text m
      in (s\<lparr>data := (data s)\<lparr>gender := Some user_gender\<rparr>, state := Some S_age\<rparr>,
          [Ask_age user_gender], None))"

definition process_age :: "message \<Rightarrow> session \<Rightarrow> outcome" where
  "process_age m s =
     (case py_int (msg_text m) of
        None \<Rightarrow> (s, [Not_a_number], None)
      | Some user_age \<Rightarrow>
          if user_age < 10 \<or> user_age > 120 then (s, [Age_out_of_range], None)
          else (s\<lparr>data := (data s)\<lparr>age := Some user_age\<rparr>, state := Some S_weight\<rparr>,
                [Ask_weight user_age], None))"

definition process_weight :: "message \<Rightarrow> session \<Rightarrow> outcome" where
  "process_weight m s =
     (case py_float (replace_comma (msg_text m)) of
        None \<Rightarrow> (s, [Not_a_number], None)
      | Some user_weight \<Rightarrow>
          if fl_less user_weight (Fin 30) \<or> fl_less (Fin 300) user_weight
          then (s, [Weight_out_of_range], None)
          else (s\<lparr>data := (data s)\<lparr>weight := Some user_weight\<rparr>, state := Some S_height\<rparr>,
                [Ask_height user_weight], None))"

definition process_height :: "message \<Rightarrow> session \<Rightarrow> outcome" where
  "process_height m s =
     (case py_float (replace_comma (msg_text m)) of
        None \<Rightarrow> (s, [Not_a_number], None)
      | Some user_height \<Rightarrow>
          if fl_less user_height (Fin 100) \<or> fl_less (Fin 250) user_height
          then (s, [Height_out_of_range], None)
          else (s\<lparr>data := (data s)\<lparr>height := Some user_height\<rparr>, state := Some S_activity\<rparr>,
                [Ask_activity user_height], None))"

definition process_activity :: "message \<Rightarrow> session \<Rightarrow> outcome" where
  "process_activity m s =
     (let user_activity = msg_text m
      in if \<not> dict_contains ACTIVITY_COEFFICIENTS user_activity
         then (s, [Choose_option], None)
         else (s\<lparr>data := (data s)\<lparr>activity := Some user_activity\<rparr>, state := Some S_goal\<rparr>,
               [Ask_goal user_activity], None))"

text \<open>\<^verbatim>\<open>data[key]\<close>: a missing key raises \<^verbatim>\<open>KeyError\<close>.\<close>

definition subscript :: "'a option \<Rightarrow> py_error + 'a" where
  "subscript v = (case v of None \<Rightarrow> Inl KeyError | Some x \<Rightarrow> Inr x)"

text \<open>
  The computation in \<^verbatim>\<open>process_goal\<close> between storing the goal and storing the derived
  values: the subscripts and the three calculations are evaluated in the order of the
  source, and the first missing key or exception ends it.
\<close>

definition derive_targets :: "user_data \<Rightarrow> py_error + (pyfloat \<times> int \<times> macros)" where
  "derive_targets d =
     bind_result (subscript (gender d)) (\<lambda>g.
     bind_result (subscript (weight d)) (\<lambda>w.
     bind_result (subscript (height d)) (\<lambda>h.
     bind_result (subscript (age d)) (\<lambda>a.
     bind_result (calculate_bmr g w h a) (\<lambda>b.
     bind_result (subscript (activity d)) (\<lambda>act.
     bind_result (subscript (goal d)) (\<lambda>gl.
     bind_result (calculate_daily_calories b act gl) (\<lambda>dc.
     bind_result (calculate_macros dc) (\<lambda>mac.
       Inr (b, dc, mac))))))))))"

text \<open>
  The summary of \<^verbatim>\<open>process_goal\<close> subscripts the six answers again and formats
  \<^verbatim>\<open>round(bmr)\<close>.
\<close>

definition result_message :: "user_data \<Rightarrow> pyfloat \<Rightarrow> int \<Rightarrow> macros \<Rightarrow> py_error + reply" where
  "result_message d b dc mac =
     bind_result (subscript (gender d)) (\<lambda>g.
     bind_result (subscript (age d)) (\<lambda>a.
     bind_result (subscript (weight d)) (\<lambda>w.
     bind_result (subscript (height d)) (\<lambda>h.
     bind_result (subscript (activity d)) (\<lambda>act.
     bind_result (subscript (goal d)) (\<lambda>gl.
     bind_result (py_round b) (\<lambda>rounded_bmr.
       Inr (Result g a w h act gl rounded_bmr dc mac))))))))"

definition process_goal :: "message \<Rightarrow> session \<Rightarrow> outcome" where
  "process_goal m s =
     (let user_goal = msg_text m
      in if \<not> dict_contains GOAL_COEFFICIENTS user_goal then (s, [Choose_option], None)
         else
           (let s1 = s\<lparr>data := (data s)\<lparr>goal := Some user_goal\<rparr>\<rparr>;
                d = data s1
            in case derive_targets d of
                 Inl e \<Rightarrow> (s1, [], Some e)
               | Inr (b, dc, mac) \<Rightarrow>
                   (let s2 = s1\<lparr>data := (data s1)\<lparr>bmr := Some b, daily_calories := Some dc,
                                                    macros := Some mac\<rparr>\<rparr>
                    in case result_message d b dc mac of
                         Inl e \<Rightarrow> (s2, [], Some e)
                       | Inr r \<Rightarrow> (s2\<lparr>state := Some S_menu\<rparr>, [r], None))))"

definition show_my_data :: "message \<Rightarrow> session \<Rightarrow> outcome" where
  "show_my_data m s =
     (let d = data s;
          mac = (case macros d of
                   None \<Rightarrow> \<lparr> protein = 0, fat = 0, carbs = 0 \<rparr>
                 | Some x \<Rightarrow> x)
      in case py_round (case bmr d of None \<Rightarrow> Fin 0 | Some b \<Rightarrow> b) of
           Inl e \<Rightarrow> (s, [], Some e)
         | Inr rounded_bmr \<Rightarrow>
             (s, [My_data (gender d) (age d) (weight d) (height d) (activity d) (goal d)
                    rounded_bmr (case daily_calories d of None \<Rightarrow> 0 | Some c \<Rightarrow> c)
                    (protein mac) (fat mac) (carbs mac)],
              None))"

definition recalculate :: "message \<Rightarrow> session \<Rightarrow> outcome" where
  "recalculate m s = (s\<lparr>state := Some S_gender\<rparr>, [Ask_gender_again], None)"

subsection \<open>Sending the generated menu\<close>

definition my_data_label :: pystr where
  "my_data_label = [128203, 32, 1052, 1086, 1080, 32, 1076, 1072, 1085, 1085, 1099, 1077]"

definition recalculate_label :: pystr where
  "recalculate_label =
     [128260, 32, 1055, 1077, 1088, 1077, 1089, 1095, 1080, 1090, 1072, 1090, 1100]"

definition generate_label :: pystr where
  "generate_label =
     [127869, 32, 1057, 1075, 1077, 1085, 1077, 1088, 1080, 1088, 1086, 1074, 1072, 1090,
      1100, 32, 1084, 1077, 1085, 1102]"

definition new_menu_label :: pystr where
  "new_menu_label = [127381, 32, 1053, 1086, 1074, 1086, 1077, 32, 1084, 1077, 1085, 1102]"

text \<open>The fixed texts of the two f-strings that carry the menu.\<close>

definition whole_menu_header :: pystr where
  "whole_menu_header =
     [128203, 32, 1042, 1072, 1096, 1077, 32, 1087, 1077, 1088, 1089, 1086, 1085, 1072,
      1083, 1080, 1079, 1080, 1088, 1086, 1074, 1072, 1085, 1085, 1086, 1077, 32, 1084,
      1077, 1085, 1102, 32, 1085, 1072, 32, 1085, 1077, 1076, 1077, 1083, 1102, 58, 10, 10]"

definition part_header :: pystr where
  "part_header =
     [128203, 32, 1042, 1072, 1096, 1077, 32, 1084, 1077, 1085, 1102, 32, 40, 1095, 1072,
      1089, 1090, 1100, 32]"

definition part_header_end :: pystr where
  "part_header_end = [41, 58, 10, 10]"

text \<open>\<^verbatim>\<open>range(start, stop, step)\<close> for a positive step, and the slice \<^verbatim>\<open>xs[i:j]\<close>.\<close>

definition py_range :: "nat \<Rightarrow> nat \<Rightarrow> nat \<Rightarrow> nat list" where
  "py_range start stop step =
     map (\<lambda>k. start + k * step) [0 ..< (stop - start + step - 1) div step]"

definition slice :: "'a list \<Rightarrow> nat \<Rightarrow> nat \<Rightarrow> 'a list" where
  "slice xs i j = take (j - i) (drop i xs)"

definition menu_parts :: "pystr \<Rightarrow> pystr list" where
  "menu_parts menu_text =
     map (\<lambda>i. slice menu_text i (i + 4000)) (py_range 0 (length menu_text) 4000)"

definition send_menu :: "pystr \<Rightarrow> reply list" where
  "send_menu menu_text =
     (if length menu_text > 4096
      then (let parts = menu_parts menu_text
            in map (\<lambda>(i, part).
                      Menu_message (part_header @ str_of_nat i @ [47]
                                    @ str_of_nat (length parts) @ part_header_end @ part))
                   (enumerate 1 parts))
      else [Menu_message (whole_menu_header @ menu_text)])"

definition generate_menu :: "service_result \<Rightarrow> message \<Rightarrow> session \<Rightarrow> outcome" where
  "generate_menu openai_response m s =
     (s,
      Generating #
        (case openai_response of
           Plan menu_text \<Rightarrow> send_menu menu_text
         | AuthenticationError \<Rightarrow> [Auth_failed]
         | RateLimitError \<Rightarrow> [Rate_limited]
         | APIError e \<Rightarrow> [Api_failed e]
         | OtherException \<Rightarrow> [Generation_failed]),
      None)"

subsection \<open>The dispatcher\<close>

text \<open>
  Each handler is registered with a filter: a command, an FSM state, or an FSM state
  together with a set of texts. A message goes to the first registered handler whose
  filter accepts it, and to none if no filter does.
\<close>

datatype msg_filter =
    Command pystr
  | In_state UserStates
  | In_state_text UserStates "pystr list"

fun accepts :: "msg_filter \<Rightarrow> session \<Rightarrow> message \<Rightarrow> bool" where
  "accepts (Command c) s m = (msg_command m = Some c)"
| "accepts (In_state st) s m = (state s = Some st)"
| "accepts (In_state_text st ts) s m = (state s = Some st \<and> msg_text m \<in> set ts)"

definition handlers ::
  "service_result \<Rightarrow> (msg_filter \<times> (message \<Rightarrow> session \<Rightarrow> outcome)) list" where
  "handlers openai_response =
     [(Command cmd_name_start, cmd_start),
      (Command cmd_name_cancel, cmd_cancel),
      (In_state S_gender, process_gender),
      (In_state S_age, process_age),
      (In_state S_weight, process_weight),
      (In_state S_height, process_height),
      (In_state S_activity, process_activity),
      (In_state S_goal, process_goal),
      (In_state_text S_menu [my_data_label], show_my_data),
      (In_state_text S_menu [recalculate_label], recalculate),
      (In_state_text S_menu [generate_label, new_menu_label], generate_menu openai_response)]"

fun first_accepting ::
  "(msg_filter \<times> (message \<Rightarrow> session \<Rightarrow> outcome)) list \<Rightarrow> session \<Rightarrow> message \<Rightarrow> outcome" where
  "first_accepting [] s m = (s, [], None)"
| "first_accepting ((f, h) # hs) s m = (if accepts f s m then h m s else first_accepting hs s m)"

definition dispatch :: "service_result \<Rightarrow> session \<Rightarrow> message \<Rightarrow> outcome" where
  "dispatch openai_response s m = first_accepting (handlers openai_response) s m"

text \<open>
  A conversation: the messages of one user in order, each with what the generation
  service would answer at that moment. The run keeps the session and collects the
  messages sent.
\<close>

fun run :: "session \<Rightarrow> (service_result \<times> message) list \<Rightarrow> session \<times> reply list" where
  "run s [] = (s, [])"
| "run s ((r, m) # ms) =
     (case dispatch r s m of
        (s', sent, _) \<Rightarrow> (case run s' ms of (s'', sent') \<Rightarrow> (s'', sent @ sent')))"

inductive reachable :: "session \<Rightarrow> bool" where
  reachable_fresh: "reachable fresh_session"
| reachable_step: "reachable s \<Longrightarrow> reachable (fst (dispatch r s m))"

subsection \<open>The tables as the specification words them\<close>

text \<open>
  The specification gives the activity multiplier and the goal adjustment as functions of
  the label, with a default for a label that is not in the table. They are compared
  below with the dictionary look-ups of the source.
\<close>

definition spec_activity_multiplier :: "pystr \<Rightarrow> real" where
  "spec_activity_multiplier a =
     (if a = activity_minimal then 1.20
      else if a = activity_low then 1.375
      else if a = activity_medium then 1.55
      else if a = activity_high then 1.725
      else if a = activity_very_high then 1.90
      else 1.20)"

definition spec_goal_adjustment :: "pystr \<Rightarrow> real" where
  "spec_goal_adjustment g =
     (if g = goal_lose then - 0.20
      else if g = goal_maintain then 0
      else if g = goal_gain then 0.20
      else 0)"

subsection \<open>Messages that are not a command, and two sample sessions\<close>

text \<open>A message that neither of the two command filters accepts.\<close>

definition no_command :: "message \<Rightarrow> bool" where
  "no_command m = (msg_command m \<noteq> Some cmd_name_start \<and> msg_command m \<noteq> Some cmd_name_cancel)"

text \<open>
  A session in the middle of the questionnaire, and one that has completed it (its derived
  values are the ones \<^verbatim>\<open>process_goal\<close> computes from its answers).
\<close>

definition weight_session :: session where
  "weight_session =
     \<lparr> state = Some S_weight,
       data = empty_data\<lparr>gender := Some male_label, age := Some 30\<rparr> \<rparr>"

definition menu_session :: session where
  "menu_session =
     \<lparr> state = Some S_menu,
       data = \<lparr> gender = Some male_label, age = Some 30, weight = Some (Fin 70),
                height = Some (Fin 175), activity = Some activity_medium,
                goal = Some goal_maintain, bmr = Some (Fin 1648.75),
                daily_calories = Some 2556,
                macros = Some \<lparr> protein = 192, fat = 71, carbs = 288 \<rparr> \<rparr> \<rparr>"

subsection \<open>Which answers a session state presupposes\<close>

text \<open>
  The six answers in the order of the questionnaire, each as whether it is stored, and the
  number of answers that are collected strictly before a state. \<open>populated_exactly\<close> is the
  invariant as the specification states it: the stored answers are exactly those collected
  before the state. \<open>populated_before\<close> asks only that those are stored.
\<close>

definition answers :: "user_data \<Rightarrow> bool list" where
  "answers d =
     [gender d \<noteq> None, age d \<noteq> None, weight d \<noteq> None, height d \<noteq> None,
      activity d \<noteq> None, goal d \<noteq> None]"

fun collected_before :: "UserStates option \<Rightarrow> nat" where
  "collected_before None = 0"
| "collected_before (Some S_gender) = 0"
| "collected_before (Some S_age) = 1"
| "collected_before (Some S_weight) = 2"
| "collected_before (Some S_height) = 3"
| "collected_before (Some S_activity) = 4"
| "collected_before (Some S_goal) = 5"
| "collected_before (Some S_menu) = 6"

definition populated_exactly :: "session \<Rightarrow> bool" where
  "populated_exactly s =
     (let k = collected_before (state s)
      in answers (data s) = replicate k True @ replicate (6 - k) False)"

definition populated_before :: "session \<Rightarrow> bool" where
  "populated_before s =
     (let k = collected_before (state s)
      in take k (answers (data s)) = replicate k True)"

text \<open>
  A step from the data \<open>d\<close> to the data \<open>d'\<close>, taken in the state \<open>st\<close>, changes no answer
  but the one that belongs to \<open>st\<close>.
\<close>

definition writes_only :: "UserStates option \<Rightarrow> user_data \<Rightarrow> user_data \<Rightarrow> bool" where
  "writes_only st d d' =
     ((gender d' = gender d \<or> st = Some S_gender)
      \<and> (age d' = age d \<or> st = Some S_age)
      \<and> (weight d' = weight d \<or> st = Some S_weight)
      \<and> (height d' = height d \<or> st = Some S_height)
      \<and> (activity d' = activity d \<or> st = Some S_activity)
      \<and> (goal d' = goal d \<or> st = Some S_goal))"

subsection \<open>Sample inputs\<close>

text \<open>
  The texts \<^verbatim>\<open>30\<close>, \<^verbatim>\<open>70\<close>, \<^verbatim>\<open>175\<close> and \<^verbatim>\<open>abc\<close>, a conversation that fills in the
  questionnaire and then presses the restart button, the answers stored when its goal is
  accepted, a session that waits for the gender, and a generated text of 4096 characters.
\<close>

definition text_30 :: pystr where "text_30 = [51, 48]"
definition text_70 :: pystr where "text_70 = [55, 48]"
definition text_175 :: pystr where "text_175 = [49, 55, 53]"

definition restart_conversation :: "(service_result \<times> message) list" where
  "restart_conversation =
     map (\<lambda>m. (OtherException, m))
       [command_message cmd_name_start, plain male_label, plain text_30, plain text_70,
        plain text_175, plain activity_medium, plain goal_maintain, plain recalculate_label]"

definition goal_data :: user_data where
  "goal_data = empty_data\<lparr>gender := Some male_label, age := Some 30, weight := Some (Fin 70),
                            height := Some (Fin 175), activity := Some activity_medium,
                            goal := Some goal_maintain\<rparr>"

definition text_abc :: pystr where "text_abc = [97, 98, 99]"

definition gender_session :: session where
  "gender_session = \<lparr> state = Some S_gender, data = empty_data \<rparr>"

definition long_menu_text :: pystr where
  "long_menu_text = replicate 4096 97"

section \<open>Properties\<close>

subsection \<open>Rounding to the nearest integer\<close>

lemmas label_defs = male_label_def female_label_def activity_minimal_def activity_low_def
  activity_medium_def activity_high_def activity_very_high_def goal_lose_def
  goal_maintain_def goal_gain_def

lemma round_half_even_nearest: "\<bar>real_of_int (round_half_even x) - x\<bar> \<le> 1 / 2"
  unfolding round_half_even_def Let_def by (auto; linarith)

lemma round_half_even_of_int: "round_half_even (of_int n) = n"
  by (simp add: round_half_even_def)

lemma round_half_even_le: "x \<le> of_int n \<Longrightarrow> round_half_even x \<le> n"
  unfolding round_half_even_def Let_def by (auto; linarith)

lemma round_half_even_ge: "of_int n \<le> x \<Longrightarrow> n \<le> round_half_even x"
  unfolding round_half_even_def Let_def by (auto; linarith)

lemma round_half_even_unique: "\<bar>x - of_int r\<bar> < 1 / 2 \<Longrightarrow> round_half_even x = r"
proof -
  assume a: "\<bar>x - of_int r\<bar> < 1 / 2"
  then have "\<lfloor>x\<rfloor> = r \<or> \<lfloor>x\<rfloor> = r - 1"
    by linarith
  then show ?thesis
  proof
    assume f: "\<lfloor>x\<rfloor> = r"
    with a show ?thesis
      unfolding round_half_even_def Let_def by (simp; linarith)
  next
    assume f: "\<lfloor>x\<rfloor> = r - 1"
    with a show ?thesis
      unfolding round_half_even_def Let_def by (simp; linarith)
  qed
qed

lemma round_half_even_tie:
  "round_half_even (of_int k + 1 / 2) = (if even k then k else k + 1)"
proof -
  have "\<lfloor>of_int k + (1::real) / 2\<rfloor> = k" by linarith
  then show ?thesis by (simp add: round_half_even_def Let_def)
qed

lemma round_stable:
  assumes e: "e = of_int N / of_int (2 * h)" and h: "0 < h" and nt: "N mod (2 * h) \<noteq> h"
    and v: "\<bar>v - e\<bar> * of_int (4 * h) < 1"
  shows "round_half_even v = round_half_even e"
proof -
  define r where "r = round_half_even e"
  define d where "d = N - 2 * h * r"
  have hr: "0 < real_of_int h" using h by simp
  have "\<bar>real_of_int r - e\<bar> \<le> 1 / 2"
    unfolding r_def by (rule round_half_even_nearest)
  then have near: "\<bar>e - real_of_int r\<bar> \<le> 1 / 2"
    by (simp only: abs_minus_commute)
  have de: "real_of_int d = 2 * of_int h * (e - of_int r)"
    using hr by (simp add: d_def e field_simps)
  have "\<bar>real_of_int d\<bar> = 2 * of_int h * \<bar>e - of_int r\<bar>"
    using hr by (simp add: de abs_mult)
  also have "\<dots> \<le> 2 * of_int h * (1 / 2)"
    using near hr by (intro mult_left_mono) auto
  finally have "\<bar>real_of_int d\<bar> \<le> of_int h"
    by simp
  then have dh: "\<bar>d\<bar> \<le> h"
    by linarith
  have "d \<noteq> h"
  proof
    assume "d = h"
    then have "N = h + r * (2 * h)" by (simp add: d_def algebra_simps)
    then have "N mod (2 * h) = h mod (2 * h)" by (simp only: mod_mult_self1)
    with h nt show False by simp
  qed
  moreover have "d \<noteq> - h"
  proof
    assume "d = - h"
    then have "N = h + (r - 1) * (2 * h)" by (simp add: d_def algebra_simps)
    then have "N mod (2 * h) = h mod (2 * h)" by (simp only: mod_mult_self1)
    with h nt show False by simp
  qed
  ultimately have "\<bar>d\<bar> \<le> h - 1"
    using dh by linarith
  then have "\<bar>real_of_int d\<bar> \<le> of_int h - 1"
    by linarith
  then have "2 * of_int h * \<bar>e - of_int r\<bar> \<le> of_int h - 1"
    using hr by (simp add: de abs_mult)
  then have "4 * of_int h * \<bar>e - of_int r\<bar> \<le> 2 * of_int h - 2"
    by linarith
  moreover have "4 * of_int h * \<bar>v - e\<bar> < 1"
    using v by (simp add: mult.commute)
  moreover have "\<bar>v - of_int r\<bar> \<le> \<bar>v - e\<bar> + \<bar>e - of_int r\<bar>"
    by linarith
  then have "4 * of_int h * \<bar>v - of_int r\<bar> \<le> 4 * of_int h * (\<bar>v - e\<bar> + \<bar>e - of_int r\<bar>)"
    using hr by (intro mult_left_mono) auto
  ultimately have "4 * of_int h * \<bar>v - of_int r\<bar> < 2 * of_int h"
    by (simp add: algebra_simps)
  then have "4 * of_int h * \<bar>v - of_int r\<bar> < 4 * of_int h * (1 / 2)"
    by simp
  then have "\<bar>v - of_int r\<bar> < 1 / 2"
    using hr by (simp only: mult_less_cancel_left_pos) 
  then show ?thesis
    unfolding r_def [symmetric] by (rule round_half_even_unique)
qed

subsection \<open>Rounding to the nearest float\<close>

text \<open>
  The exponent search finds the binade of its argument. A number with a significand of at
  most 53 bits is its own rounding; within a binade the rounding is the rounded
  significand; the rounding error is at most half a unit in the last place; and a number
  of magnitude \<open>2 ^ 1024\<close> or more rounds to an infinity.
\<close>

lemma exp_up_spec:
  "e0 \<le> 1023 \<Longrightarrow> 2 powi e0 \<le> x \<Longrightarrow>
   exp_up x e0 \<le> 1023 \<and> 2 powi (exp_up x e0) \<le> x
   \<and> (exp_up x e0 = 1023 \<or> x < 2 powi (exp_up x e0 + 1))"
proof (induction x e0 rule: exp_up.induct)
  case (1 x e)
  show ?case
  proof (cases "e < 1023 \<and> 2 powi (e + 1) \<le> x")
    case True
    then have "exp_up x e = exp_up x (e + 1)"
      by (subst exp_up.simps) simp
    with 1 True show ?thesis by simp
  next
    case False
    then have "exp_up x e = e"
      by (subst exp_up.simps) auto
    with 1 False show ?thesis by auto
  qed
qed

lemma exp_down_spec:
  "- 1022 \<le> e0 \<Longrightarrow> x < 2 powi (e0 + 1) \<Longrightarrow>
   - 1022 \<le> exp_down x e0 \<and> x < 2 powi (exp_down x e0 + 1)
   \<and> (exp_down x e0 = - 1022 \<or> 2 powi (exp_down x e0) \<le> x)"
proof (induction x e0 rule: exp_down.induct)
  case (1 x e)
  show ?case
  proof (cases "- 1022 < e \<and> x < 2 powi e")
    case True
    then have "exp_down x e = exp_down x (e - 1)"
      by (subst exp_down.simps) simp
    with 1 True show ?thesis by simp
  next
    case False
    then have "exp_down x e = e"
      by (subst exp_down.simps) auto
    with 1 False show ?thesis by auto
  qed
qed

lemma exponent_spec:
  "- 1022 \<le> exponent x \<and> exponent x \<le> 1023
   \<and> (exponent x = 1023 \<or> \<bar>x\<bar> < 2 powi (exponent x + 1))
   \<and> (exponent x = - 1022 \<or> 2 powi (exponent x) \<le> \<bar>x\<bar>)"
proof (cases "1 \<le> \<bar>x\<bar>")
  case True
  have up: "0 \<le> exp_up y e" if "0 \<le> e" for y e
    using that
  proof (induction y e rule: exp_up.induct)
    case (1 x e)
    show ?case
      by (subst exp_up.simps) (use 1 in auto)
  qed
  from True exp_up_spec [of 0 "\<bar>x\<bar>"] up [of 0 "\<bar>x\<bar>"] show ?thesis
    by (auto simp: exponent_def)
next
  case False
  have down: "exp_down y e \<le> e" for y e
  proof (induction y e rule: exp_down.induct)
    case (1 x e)
    show ?case
      by (subst exp_down.simps) (use 1 in auto)
  qed
  from False exp_down_spec [of 0 "\<bar>x\<bar>"] down [of "\<bar>x\<bar>" 0] show ?thesis
    by (auto simp: exponent_def)
qed

lemma exponent_eq:
  assumes "2 powi k \<le> \<bar>x\<bar>" and "\<bar>x\<bar> < 2 powi (k + 1)" and "- 1022 \<le> k" and "k \<le> 1023"
  shows "exponent x = k"
proof (rule ccontr)
  assume ne: "exponent x \<noteq> k"
  show False
  proof (cases "exponent x < k")
    case True
    with assms exponent_spec [of x] have "\<bar>x\<bar> < 2 powi (exponent x + 1)" by auto
    moreover have "(2::real) powi (exponent x + 1) \<le> 2 powi k"
      using True by (intro power_int_increasing) auto
    ultimately show False using assms by linarith
  next
    case False
    with ne have gt: "k < exponent x" by simp
    with assms exponent_spec [of x] have "2 powi (exponent x) \<le> \<bar>x\<bar>" by auto
    moreover have "(2::real) powi (k + 1) \<le> 2 powi (exponent x)"
      using gt by (intro power_int_increasing) auto
    ultimately show False using assms by linarith
  qed
qed

lemma rnd_exact:
  assumes x: "x = of_int j * 2 powi k" and j: "\<bar>j\<bar> < 2 ^ 53" and k: "- 1074 \<le> k"
    and fin: "\<bar>x\<bar> < 2 powi 1024"
  shows "rnd x = Fin x"
proof -
  define e where "e = exponent x"
  have le: "e - 52 \<le> k"
  proof (cases "e = - 1022")
    case True
    with k show ?thesis by simp
  next
    case False
    with exponent_spec [of x] have "2 powi e \<le> \<bar>x\<bar>"
      by (auto simp: e_def)
    also have "\<bar>x\<bar> = real_of_int \<bar>j\<bar> * 2 powi k"
      by (simp add: x abs_mult)
    also have "\<dots> < 2 ^ 53 * 2 powi k"
    proof -
      have "real_of_int \<bar>j\<bar> < real_of_int (2 ^ 53)"
        using j by (simp only: of_int_less_iff)
      then show ?thesis by simp
    qed
    also have "\<dots> = 2 powi (53 + k)"
      by (simp add: power_int_add)
    finally have lt: "(2::real) powi e < 2 powi (53 + k)" .
    have "e < 53 + k"
    proof (rule ccontr)
      assume "\<not> e < 53 + k"
      then have "(2::real) powi (53 + k) \<le> 2 powi e"
        by (intro power_int_increasing) auto
      with lt show False by simp
    qed
    then show ?thesis by simp
  qed
  define n where "n = nat (k - (e - 52))"
  have kk: "k = (e - 52) + int n"
    using le by (simp add: n_def)
  have xu: "x / 2 powi (e - 52) = of_int (j * 2 ^ n)"
    by (simp add: x kk power_int_add)
  have y: "of_int (round_half_even (x / 2 powi (e - 52))) * 2 powi (e - 52) = x"
    unfolding xu round_half_even_of_int by (simp add: x kk power_int_add)
  show ?thesis
    using fin unfolding rnd_def Let_def e_def [symmetric] y by simp
qed

lemma rnd_int: "\<bar>n\<bar> < 2 ^ 53 \<Longrightarrow> rnd (of_int n) = Fin (of_int n)"
proof -
  assume n: "\<bar>n\<bar> < 2 ^ 53"
  then have "real_of_int \<bar>n\<bar> < real_of_int (2 ^ 53)"
    by (simp only: of_int_less_iff)
  then have "\<bar>real_of_int n\<bar> < 2 powi 1024"
    by simp
  then show ?thesis
    using rnd_exact [of "of_int n" n 0] n by simp
qed

lemma rnd_normal:
  assumes "2 powi k \<le> \<bar>x\<bar>" and "\<bar>x\<bar> < 2 powi (k + 1)" and "- 1022 \<le> k" and "k \<le> 1022"
  shows "rnd x = Fin (of_int (round_half_even (x / 2 powi (k - 52))) * 2 powi (k - 52))"
proof -
  have e: "exponent x = k"
    using assms by (intro exponent_eq) auto
  define u :: real where "u = 2 powi (k - 52)"
  have upos: "0 < u" by (simp add: u_def)
  define N :: int where "N = 2 ^ 53"
  have Nu: "of_int N * u = 2 powi (k + 1)"
  proof -
    have "k + 1 = 53 + (k - 52)" by simp
    then have "(2::real) powi (k + 1) = 2 powi (53 + (k - 52))" by (rule arg_cong)
    also have "\<dots> = 2 ^ 53 * 2 powi (k - 52)"
      by (subst power_int_add) auto
    finally show ?thesis by (simp add: N_def u_def)
  qed
  have "\<bar>x\<bar> / u \<le> of_int N"
    using assms(2) upos Nu by (simp add: field_simps)
  then have "x / u \<le> of_int N" and "of_int (- N) \<le> x / u"
    using upos by (auto simp: field_simps abs_le_iff dest: abs_le_D1 abs_le_D2)
  then have "round_half_even (x / u) \<le> N" and "- N \<le> round_half_even (x / u)"
    by (auto intro: round_half_even_le round_half_even_ge)
  then have "\<bar>real_of_int (round_half_even (x / u))\<bar> \<le> of_int N"
    by linarith
  then have "\<bar>real_of_int (round_half_even (x / u)) * u\<bar> \<le> of_int N * u"
    using upos by (simp add: abs_mult mult_right_mono)
  also have "\<dots> = 2 powi (k + 1)" by (rule Nu)
  also have "\<dots> < 2 powi 1024"
    using assms(4) by (intro power_int_strict_increasing) auto
  finally show ?thesis
    unfolding rnd_def Let_def e u_def [symmetric] by simp
qed

lemma rnd_error:
  assumes lt: "\<bar>x\<bar> < 2 powi k" and lo: "- 1021 \<le> k" and hi: "k \<le> 1023"
  shows "\<exists>y. rnd x = Fin y \<and> \<bar>y - x\<bar> \<le> 2 powi (k - 54) \<and> \<bar>y\<bar> \<le> 2 powi k"
proof -
  define e where "e = exponent x"
  have ek: "e \<le> k - 1"
  proof (cases "e = - 1022")
    case True
    with lo show ?thesis by simp
  next
    case False
    with exponent_spec [of x] have "2 powi e \<le> \<bar>x\<bar>"
      by (auto simp: e_def)
    with lt have l: "(2::real) powi e < 2 powi k" by simp
    have "e < k"
    proof (rule ccontr)
      assume "\<not> e < k"
      then have "(2::real) powi k \<le> 2 powi e"
        by (intro power_int_increasing) auto
      with l show False by simp
    qed
    then show ?thesis by simp
  qed
  define u :: real where "u = 2 powi (e - 52)"
  have upos: "0 < u" by (simp add: u_def)
  define m where "m = round_half_even (x / u)"
  define y where "y = real_of_int m * u"
  have "\<bar>real_of_int m - x / u\<bar> \<le> 1 / 2"
    unfolding m_def by (rule round_half_even_nearest)
  then have "\<bar>real_of_int m - x / u\<bar> * u \<le> 1 / 2 * u"
    using upos by (intro mult_right_mono) auto
  moreover have "\<bar>real_of_int m - x / u\<bar> * u = \<bar>y - x\<bar>"
  proof -
    have "\<bar>real_of_int m - x / u\<bar> * u = \<bar>(real_of_int m - x / u) * u\<bar>"
      using upos by (simp add: abs_mult)
    also have "(real_of_int m - x / u) * u = y - x"
      using upos by (simp add: y_def field_simps)
    finally show ?thesis .
  qed
  moreover have "1 / 2 * u \<le> 2 powi (k - 54)"
  proof -
    have "(2::real) powi ((e - 53) + 1) = 2 powi (e - 53) * 2 powi 1"
      by (rule power_int_add) simp
    moreover have "(e - 53) + 1 = e - 52" by simp
    ultimately have "(2::real) powi (e - 52) = 2 powi (e - 53) * 2"
      by simp
    then have "1 / 2 * u = 2 powi (e - 53)"
      by (simp add: u_def)
    also have "\<dots> \<le> 2 powi (k - 54)"
      using ek by (intro power_int_increasing) auto
    finally show ?thesis .
  qed
  ultimately have err: "\<bar>y - x\<bar> \<le> 2 powi (k - 54)" by linarith
  define n where "n = nat (k - (e - 52))"
  have kk: "k = (e - 52) + int n"
    using ek by (simp add: n_def)
  define N :: int where "N = 2 ^ n"
  have Nu: "of_int N * u = 2 powi k"
    by (subst kk) (simp add: N_def u_def power_int_add)
  have "\<bar>x\<bar> / u \<le> of_int N"
    using lt upos Nu by (simp add: field_simps)
  then have "x / u \<le> of_int N" and "of_int (- N) \<le> x / u"
    using upos by (auto simp: field_simps abs_le_iff dest: abs_le_D1 abs_le_D2)
  then have "m \<le> N" and "- N \<le> m"
    unfolding m_def by (auto intro: round_half_even_le round_half_even_ge)
  then have "\<bar>real_of_int m\<bar> \<le> of_int N"
    by linarith
  then have "\<bar>y\<bar> \<le> of_int N * u"
    unfolding y_def using upos by (simp add: abs_mult mult_right_mono)
  then have bound: "\<bar>y\<bar> \<le> 2 powi k"
    by (simp only: Nu)
  have "(2::real) powi k < 2 powi 1024"
    using hi by (intro power_int_strict_increasing) auto
  with bound have "\<not> 2 powi 1024 \<le> \<bar>y\<bar>" by linarith
  then have "rnd x = Fin y"
    unfolding rnd_def Let_def e_def [symmetric] u_def [symmetric] m_def [symmetric]
      y_def [symmetric] by simp
  with err bound show ?thesis by blast
qed

lemma rnd_overflow:
  assumes "2 powi 1024 \<le> x"
  shows "rnd x = PInf"
proof -
  have xpos: "0 < x"
    using assms zero_less_power_int [of "2::real" 1024] by linarith
  have e: "exponent x = 1023"
  proof (rule ccontr)
    assume "exponent x \<noteq> 1023"
    with exponent_spec [of x] have lt: "\<bar>x\<bar> < 2 powi (exponent x + 1)"
      and le: "exponent x + 1 \<le> 1023"
      by auto
    have "(2::real) powi (exponent x + 1) \<le> 2 powi 1024"
      using le by (intro power_int_increasing) auto
    with lt assms xpos show False by simp
  qed
  define u :: real where "u = 2 powi (1023 - 52)"
  have upos: "0 < u" by (simp add: u_def)
  have Nu: "real_of_int (2 ^ 53) * u = 2 powi 1024"
  proof -
    have "(2::real) powi (53 + (1023 - 52)) = 2 powi 53 * 2 powi (1023 - 52)"
      by (rule power_int_add) simp
    then show ?thesis by (simp add: u_def)
  qed
  have "real_of_int (2 ^ 53) \<le> x / u"
    using assms upos Nu by (simp add: field_simps)
  then have "2 ^ 53 \<le> round_half_even (x / u)"
    by (rule round_half_even_ge)
  then have "real_of_int (2 ^ 53) \<le> real_of_int (round_half_even (x / u))"
    by (simp only: of_int_le_iff)
  then have "real_of_int (2 ^ 53) * u \<le> real_of_int (round_half_even (x / u)) * u"
    using upos by (intro mult_right_mono) auto
  then have "2 powi 1024 \<le> \<bar>real_of_int (round_half_even (x / u)) * u\<bar>"
    unfolding Nu by linarith
  then show ?thesis
    unfolding rnd_def Let_def e u_def [symmetric] using xpos by simp
qed

lemma rnd_eval:
  assumes "2 powi k \<le> \<bar>x\<bar>" and "\<bar>x\<bar> < 2 powi (k + 1)" and "- 1022 \<le> k" and "k \<le> 1022"
    and "of_int (round_half_even (x / 2 powi (k - 52))) * 2 powi (k - 52) = y"
  shows "rnd x = Fin y"
  using rnd_normal [OF assms(1-4)] assms(5) by simp

lemma rnd_sixteenth:
  assumes "x = of_int j / 16" and "\<bar>j\<bar> < 2 ^ 53"
  shows "rnd x = Fin x"
proof -
  have "real_of_int \<bar>j\<bar> < real_of_int (2 ^ 53)"
    using assms(2) by (simp only: of_int_less_iff)
  then have b: "\<bar>real_of_int j / 16\<bar> < 2 powi 1024"
    by simp
  have "rnd (real_of_int j / 16) = Fin (real_of_int j / 16)"
    by (rule rnd_exact [of _ j "- 4"]) (use assms(2) b in simp_all)
  then show ?thesis
    by (simp only: assms(1))
qed

lemma rnd_1: "rnd 1 = Fin 1"
  using rnd_int [of 1] by simp

lemma rnd_near_int:
  assumes n: "\<bar>n\<bar> < 2 ^ 52" and x: "\<bar>x - of_int n\<bar> * 2 ^ 54 \<le> \<bar>x\<bar>"
  shows "rnd x = Fin (of_int n)"
proof -
  define e where "e = exponent x"
  have nr: "\<bar>real_of_int n\<bar> < 2 ^ 52"
  proof -
    have "real_of_int \<bar>n\<bar> < real_of_int (2 ^ 52)"
      using n by (simp only: of_int_less_iff)
    then show ?thesis by simp
  qed
  have tri: "\<bar>x\<bar> \<le> \<bar>real_of_int n\<bar> + \<bar>x - of_int n\<bar>"
    by linarith
  define a where "a = \<bar>x\<bar>"
  define b where "b = \<bar>x - of_int n\<bar>"
  have "b * 18014398509481984 \<le> a" "a \<le> \<bar>real_of_int n\<bar> + b" "\<bar>real_of_int n\<bar> < 4503599627370496"
    using x tri nr by (simp_all add: a_def b_def)
  then have "a < 9007199254740992"
    by linarith
  then have xb: "\<bar>x\<bar> < 2 powi 53"
    by (simp add: a_def)
  have e52: "e \<le> 52"
  proof (rule ccontr)
    assume "\<not> e \<le> 52"
    then have g: "53 \<le> e" by simp
    with exponent_spec [of x] have "2 powi e \<le> \<bar>x\<bar>"
      by (auto simp: e_def)
    moreover have "(2::real) powi 53 \<le> 2 powi e"
      using g by (intro power_int_increasing) auto
    ultimately show False using xb by linarith
  qed
  with exponent_spec [of x] have up: "\<bar>x\<bar> < 2 powi (e + 1)"
    by (auto simp: e_def)
  define u :: real where "u = 2 powi (e - 52)"
  have upos: "0 < u" by (simp add: u_def)
  have Nu: "2 ^ 53 * u = 2 powi (e + 1)"
  proof -
    have "e + 1 = 53 + (e - 52)" by simp
    then have "(2::real) powi (e + 1) = 2 powi (53 + (e - 52))" by (rule arg_cong)
    also have "\<dots> = 2 ^ 53 * 2 powi (e - 52)"
      by (subst power_int_add) auto
    finally show ?thesis by (simp add: u_def)
  qed
  define p where "p = nat (52 - e)"
  have "e - 52 = - int p"
    using e52 by (simp add: p_def)
  then have "u = 2 powi (- int p)"
    by (simp add: u_def)
  then have up2: "u * 2 ^ p = 1"
    by (simp add: power_int_minus)
  define J where "J = n * 2 ^ p"
  have Ju: "real_of_int J * u = of_int n"
    using up2 by (simp add: J_def mult.assoc mult.commute [of _ u])
  then have J: "real_of_int J = of_int n / u"
    using upos by (simp add: field_simps)
  have "b * 18014398509481984 < 2 ^ 53 * u"
    using x up Nu by (simp add: b_def)
  then have "b < u / 2"
    by simp
  then have "b / u < 1 / 2"
    using upos by (simp add: field_simps)
  moreover have "\<bar>x / u - of_int J\<bar> = b / u"
  proof -
    have "x / u - of_int J = (x - of_int n) / u"
      by (simp add: J diff_divide_distrib)
    then show ?thesis
      using upos by (simp add: b_def)
  qed
  ultimately have "round_half_even (x / u) = J"
    by (intro round_half_even_unique) simp
  then have y: "of_int (round_half_even (x / u)) * u = real_of_int n"
    by (simp add: Ju)
  have "\<not> 2 powi 1024 \<le> \<bar>real_of_int n\<bar>"
    using nr by simp
  then show ?thesis
    unfolding rnd_def Let_def e_def [symmetric] u_def [symmetric] y by simp
qed

lemma abs_mult_bound:
  fixes x y :: real
  assumes "\<bar>x\<bar> \<le> X" and "\<bar>y\<bar> \<le> Y"
  shows "\<bar>x * y\<bar> \<le> X * Y"
proof -
  have "0 \<le> X" using assms(1) by linarith
  then show ?thesis
    using assms by (simp add: abs_mult mult_mono)
qed

subsection \<open>The literals of the source and the conversions\<close>

lemma float_literal_6_25: "float_literal 6.25 = Fin 6.25"
  unfolding float_literal_def by (rule rnd_sixteenth [of _ 100]) simp_all

lemma literal_1_2: "float_literal 1.2 = Fin (5404319552844595 / 4503599627370496)"
  unfolding float_literal_def
  by (subst rnd_normal [where k = 0]) (simp_all add: round_half_even_def)

lemma literal_1_55: "float_literal 1.55 = Fin (6980579422424269 / 4503599627370496)"
  unfolding float_literal_def
  by (subst rnd_normal [where k = 0]) (simp_all add: round_half_even_def)

lemma literal_0_2: "float_literal 0.2 = Fin (3602879701896397 / 18014398509481984)"
  unfolding float_literal_def
  by (subst rnd_normal [where k = "- 3"]) (simp_all add: round_half_even_def)

lemma literal_neg_0_2: "float_literal (- 0.2) = fl_neg (float_literal 0.2)"
  unfolding literal_0_2 unfolding float_literal_def
  by (subst rnd_normal [where k = "- 3"]) (simp_all add: round_half_even_def)

lemma literal_0_3: "float_literal 0.30 = Fin (5404319552844595 / 18014398509481984)"
  unfolding float_literal_def
  by (subst rnd_normal [where k = "- 2"]) (simp_all add: round_half_even_def)

lemma literal_0_25: "float_literal 0.25 = Fin 0.25"
  unfolding float_literal_def by (rule rnd_sixteenth [of _ 4]) simp_all

lemma literal_0_45: "float_literal 0.45 = Fin (8106479329266893 / 18014398509481984)"
  unfolding float_literal_def
  by (subst rnd_normal [where k = "- 2"]) (simp_all add: round_half_even_def)

lemma literal_0: "float_literal 0 = Fin 0"
  unfolding float_literal_def using rnd_int [of 0] by simp

lemma literal_1_9: "float_literal 1.9 = Fin (4278419646001971 / 2251799813685248)"
  unfolding float_literal_def
  by (subst rnd_normal [where k = 0]) (simp_all add: round_half_even_def)

lemma one_plus_0_2:
  "fl_add (Fin 1) (Fin (3602879701896397 / 18014398509481984))
     = Fin (5404319552844595 / 4503599627370496)"
  unfolding fl_add.simps
  by (rule rnd_eval [where k = 0]) (simp_all add: round_half_even_def)

lemma fl_of_int_small: "\<bar>n\<bar> < 2 ^ 53 \<Longrightarrow> fl_of_int n = Inr (Fin (of_int n))"
  by (simp add: fl_of_int_def rnd_int)

lemma fl_of_int_overflow: "2 ^ 1024 \<le> n \<Longrightarrow> fl_of_int n = Inl OverflowError"
proof -
  assume "2 ^ 1024 \<le> n"
  then have "real_of_int (2 ^ 1024) \<le> real_of_int n"
    by (simp only: of_int_le_iff)
  then have "2 powi 1024 \<le> real_of_int n"
    by simp
  then show ?thesis
    by (simp add: fl_of_int_def rnd_overflow)
qed

lemma fl_div_eval:
  assumes "y \<noteq> 0" and "rnd (x / y) = Fin z"
  shows "fl_div (Fin x) (Fin y) = Inr (Fin z)"
  using assms by simp

lemma fl_mul_one: "\<bar>j\<bar> < 2 ^ 53 \<Longrightarrow> x = of_int j / 16 \<Longrightarrow> fl_mul (Fin x) (Fin 1) = Fin x"
  using rnd_sixteenth [of x j] by simp

lemma small_int_real: "\<bar>c\<bar> \<le> 2 ^ 31 \<Longrightarrow> \<bar>real_of_int c\<bar> \<le> 2 ^ 31"
proof -
  assume "\<bar>c\<bar> \<le> 2 ^ 31"
  then have "real_of_int \<bar>c\<bar> \<le> real_of_int (2 ^ 31)"
    by (simp only: of_int_le_iff)
  then show ?thesis by simp
qed

lemma quarter_exact:
  assumes "\<bar>n\<bar> < 2 ^ 52"
  shows "fl_div (Fin (of_int n)) (Fin 4) = Inr (Fin (of_int n / 4))"
proof -
  have "real_of_int \<bar>n\<bar> < real_of_int (2 ^ 52)"
    using assms by (simp only: of_int_less_iff)
  then have b: "\<bar>real_of_int n / 4\<bar> < 2 powi 1024"
    by simp
  have "rnd (real_of_int n / 4) = Fin (real_of_int n / 4)"
    using assms b by (intro rnd_exact [of _ n "- 2"]) simp_all
  then show ?thesis by simp
qed

lemma activity_coef_spec:
  "dict_get ACTIVITY_COEFFICIENTS a (float_literal 1.2)
     = float_literal (spec_activity_multiplier a)"
  by (simp add: dict_get_def ACTIVITY_COEFFICIENTS_def spec_activity_multiplier_def)

lemma goal_coef_spec:
  "dict_get GOAL_COEFFICIENTS g (Fin 0) = float_literal (spec_goal_adjustment g)"
  using literal_neg_0_2 literal_0
  by (simp add: dict_get_def GOAL_COEFFICIENTS_def spec_goal_adjustment_def)

subsection \<open>The basal metabolic rate\<close>

text \<open>
  When weight and height are multiples of a quarter, every intermediate value of
  \<^verbatim>\<open>calculate_bmr\<close> is a multiple of a sixteenth and no operation rounds. For a weight,
  a height and an age within the ranges that the questionnaire accepts, five operations
  round, each by at most half a unit in the last place of a number below \<open>2 ^ 15\<close>.
\<close>

lemma calculate_bmr_quarters:
  assumes "\<bar>jw\<bar> \<le> 2 ^ 40" and "\<bar>jh\<bar> \<le> 2 ^ 40" and "\<bar>a\<bar> \<le> 2 ^ 40"
  shows "calculate_bmr g (Fin (of_int jw / 4)) (Fin (of_int jh / 4)) a
     = Inr (Fin (10 * (of_int jw / 4) + 6.25 * (of_int jh / 4) - 5 * of_int a
                 + (if g = male_label then 5 else - 161)))"
proof -
  define W :: real where "W = of_int jw / 4"
  define H :: real where "H = of_int jh / 4"
  define A :: real where "A = of_int (5 * a)"
  have a5: "fl_of_int (5 * a) = Inr (Fin A)"
    unfolding A_def using assms(3) by (intro fl_of_int_small) simp
  have m1: "fl_mul (Fin 10) (Fin W) = Fin (10 * W)"
    unfolding fl_mul.simps
    by (rule rnd_sixteenth [of _ "40 * jw"]) (use assms in \<open>simp_all add: W_def\<close>)
  have m2: "fl_mul (Fin 6.25) (Fin H) = Fin (6.25 * H)"
    unfolding fl_mul.simps
    by (rule rnd_sixteenth [of _ "25 * jh"]) (use assms in \<open>simp_all add: H_def\<close>)
  have s1: "fl_add (Fin (10 * W)) (Fin (6.25 * H)) = Fin (10 * W + 6.25 * H)"
    unfolding fl_add.simps
    by (rule rnd_sixteenth [of _ "40 * jw + 25 * jh"])
      (use assms in \<open>simp_all add: W_def H_def add_divide_distrib\<close>)
  have s2: "fl_sub (Fin (10 * W + 6.25 * H)) (Fin A) = Fin (10 * W + 6.25 * H - A)"
    unfolding fl_sub_def fl_neg.simps fl_add.simps
    using rnd_sixteenth [of "10 * W + 6.25 * H + - A" "40 * jw + 25 * jh - 80 * a"] assms
    by (simp add: W_def H_def A_def add_divide_distrib diff_divide_distrib)
  have s3: "fl_add (Fin (10 * W + 6.25 * H - A)) (Fin 5) = Fin (10 * W + 6.25 * H - A + 5)"
    unfolding fl_add.simps
    by (rule rnd_sixteenth [of _ "40 * jw + 25 * jh - 80 * a + 80"])
      (use assms in \<open>simp_all add: W_def H_def A_def add_divide_distrib diff_divide_distrib\<close>)
  have s4: "fl_sub (Fin (10 * W + 6.25 * H - A)) (Fin 161)
      = Fin (10 * W + 6.25 * H - A - 161)"
    unfolding fl_sub_def fl_neg.simps fl_add.simps
    using rnd_sixteenth [of "10 * W + 6.25 * H - A + - 161" "40 * jw + 25 * jh - 80 * a - 2576"]
      assms
    by (simp add: W_def H_def A_def add_divide_distrib diff_divide_distrib)
  have "calculate_bmr g (Fin W) (Fin H) a
      = Inr (Fin (10 * W + 6.25 * H - A + (if g = male_label then 5 else - 161)))"
    unfolding calculate_bmr_def a5 bind_result_def float_literal_6_25 sum.case m1 m2 s1 s2
      s3 s4
    by simp
  then show ?thesis
    by (simp add: W_def H_def A_def)
qed

lemma calculate_bmr_accepted_range:
  assumes "30 \<le> w" and "w \<le> 300" and "100 \<le> h" and "h \<le> 250"
    and "10 \<le> a" and "a \<le> 120"
  shows "\<exists>y. calculate_bmr g (Fin w) (Fin h) a = Inr (Fin y)
    \<and> \<bar>y - (10 * w + 6.25 * h - 5 * of_int a + (if g = male_label then 5 else - 161))\<bar>
        \<le> 1 / 2 ^ 38"
proof -
  define A :: real where "A = of_int (5 * a)"
  define c :: real where "c = (if g = male_label then 5 else - 161)"
  have a5: "fl_of_int (5 * a) = Inr (Fin A)"
    unfolding A_def using assms(5,6) by (intro fl_of_int_small) simp
  have Ab: "0 \<le> A" "A \<le> 600"
    using assms(5,6) by (simp_all add: A_def)
  have cb: "- 161 \<le> c" "c \<le> 5"
    by (simp_all add: c_def)
  have "\<bar>10 * w\<bar> < 2 powi 12"
    using assms(1,2) by simp
  from rnd_error [OF this]
  obtain y1 where y1: "rnd (10 * w) = Fin y1" "\<bar>y1 - 10 * w\<bar> \<le> 2 powi (12 - 54)"
      "\<bar>y1\<bar> \<le> 2 powi 12"
    by auto
  have "\<bar>6.25 * h\<bar> < 2 powi 11"
    using assms(3,4) by simp
  from rnd_error [OF this]
  obtain y2 where y2: "rnd (6.25 * h) = Fin y2" "\<bar>y2 - 6.25 * h\<bar> \<le> 2 powi (11 - 54)"
      "\<bar>y2\<bar> \<le> 2 powi 11"
    by auto
  have "\<bar>y1 + y2\<bar> < 2 powi 13"
    using y1(3) y2(3) by (simp; linarith)
  from rnd_error [OF this]
  obtain y3 where y3: "rnd (y1 + y2) = Fin y3" "\<bar>y3 - (y1 + y2)\<bar> \<le> 2 powi (13 - 54)"
      "\<bar>y3\<bar> \<le> 2 powi 13"
    by auto
  have "\<bar>y3 + - A\<bar> < 2 powi 14"
    using y3(3) Ab by (simp; linarith)
  from rnd_error [OF this]
  obtain y4 where y4: "rnd (y3 + - A) = Fin y4" "\<bar>y4 - (y3 + - A)\<bar> \<le> 2 powi (14 - 54)"
      "\<bar>y4\<bar> \<le> 2 powi 14"
    by auto
  have "\<bar>y4 + c\<bar> < 2 powi 15"
    using y4(3) cb by (simp; linarith)
  from rnd_error [OF this]
  obtain y5 where y5: "rnd (y4 + c) = Fin y5" "\<bar>y5 - (y4 + c)\<bar> \<le> 2 powi (15 - 54)"
    by auto
  have m1: "fl_mul (Fin 10) (Fin w) = Fin y1"
    unfolding fl_mul.simps by (rule y1(1))
  have m2: "fl_mul (Fin 6.25) (Fin h) = Fin y2"
    unfolding fl_mul.simps by (rule y2(1))
  have s1: "fl_add (Fin y1) (Fin y2) = Fin y3"
    unfolding fl_add.simps by (rule y3(1))
  have s2: "fl_sub (Fin y3) (Fin A) = Fin y4"
    unfolding fl_sub_def fl_neg.simps fl_add.simps by (rule y4(1))
  have res: "calculate_bmr g (Fin w) (Fin h) a = Inr (Fin y5)"
  proof (cases "g = male_label")
    case True
    then have "c = 5" by (simp add: c_def)
    with y5(1) have "fl_add (Fin y4) (Fin 5) = Fin y5"
      by (simp only: fl_add.simps)
    with True show ?thesis
      unfolding calculate_bmr_def a5 bind_result_def float_literal_6_25 sum.case m1 m2 s1 s2
      by simp
  next
    case False
    then have "c = - 161" by (simp add: c_def)
    with y5(1) have "fl_sub (Fin y4) (Fin 161) = Fin y5"
      by (simp only: fl_sub_def fl_neg.simps fl_add.simps)
    with False show ?thesis
      unfolding calculate_bmr_def a5 bind_result_def float_literal_6_25 sum.case m1 m2 s1 s2
      by simp
  qed
  define d :: real where "d = 1 / 2 ^ 43"
  define hh :: real where "hh = 6.25 * h"
  have e1: "\<bar>y1 - 10 * w\<bar> \<le> 2 * d"
    using y1(2) by (simp add: d_def field_simps)
  have e2: "\<bar>y2 - hh\<bar> \<le> d"
    using y2(2) by (simp add: d_def hh_def field_simps)
  have e3: "\<bar>y3 - (y1 + y2)\<bar> \<le> 4 * d"
    using y3(2) by (simp add: d_def field_simps)
  have e4: "\<bar>y4 - (y3 + - A)\<bar> \<le> 8 * d"
    using y4(2) by (simp add: d_def field_simps)
  have e5: "\<bar>y5 - (y4 + c)\<bar> \<le> 16 * d"
    using y5(2) by (simp add: d_def field_simps)
  have "\<bar>y5 - (10 * w + hh - A + c)\<bar> \<le> 32 * d"
    using e1 e2 e3 e4 e5 by linarith
  then have "\<bar>y5 - (10 * w + 6.25 * h - A + c)\<bar> \<le> 1 / 2 ^ 38"
    by (simp add: d_def hh_def)
  then show ?thesis
    using res by (auto simp: A_def c_def)
qed

lemma bmr_ex: "calculate_bmr male_label (Fin 70) (Fin 175) 30 = Inr (Fin 1648.75)"
  using calculate_bmr_quarters [of 280 700 30 male_label] by simp

lemma bmr_ex_female: "calculate_bmr female_label (Fin 60) (Fin 165) 25 = Inr (Fin 1345.25)"
  using calculate_bmr_quarters [of 240 660 25 female_label]
  by (simp add: female_label_def male_label_def)

lemma calculate_bmr_fallback:
  "g \<noteq> male_label \<Longrightarrow> calculate_bmr g w h a = calculate_bmr female_label w h a"
  by (simp add: calculate_bmr_def female_label_def male_label_def)

lemma bmr_rounded_ex:
  "calculate_bmr male_label (Fin 70) (Fin (179 + 1 / 2 ^ 45)) 20
     = Inr (Fin (1723.75 + 1 / 2 ^ 42))"
proof -
  have a5: "fl_of_int (5 * 20) = Inr (Fin 100)"
    using fl_of_int_small [of 100] by simp
  have m1: "fl_mul (Fin 10) (Fin 70) = Fin 700"
    using rnd_int [of 700] by simp
  have m2: "fl_mul (Fin 6.25) (Fin (179 + 1 / 2 ^ 45)) = Fin (4920314534297601 / 4398046511104)"
    unfolding fl_mul.simps
    by (rule rnd_eval [where k = 10]) (simp_all add: round_half_even_def)
  have s1: "fl_add (Fin 700) (Fin (4920314534297601 / 4398046511104))
      = Fin (7998947092070401 / 4398046511104)"
    unfolding fl_add.simps
    by (rule trans [OF _ rnd_exact [of _ 7998947092070401 "- 42"]]) simp_all
  have s2: "fl_sub (Fin (7998947092070401 / 4398046511104)) (Fin 100)
      = Fin (7559142440960001 / 4398046511104)"
    unfolding fl_sub_def fl_neg.simps fl_add.simps
    by (rule trans [OF _ rnd_exact [of _ 7559142440960001 "- 42"]]) simp_all
  have s3: "fl_add (Fin (7559142440960001 / 4398046511104)) (Fin 5)
      = Fin (7581132673515521 / 4398046511104)"
    unfolding fl_add.simps
    by (rule trans [OF _ rnd_exact [of _ 7581132673515521 "- 42"]]) simp_all
  have v: "(1723.75 + 1 / 2 ^ 42 :: real) = 7581132673515521 / 4398046511104"
    by simp
  show ?thesis
    unfolding calculate_bmr_def a5 bind_result_def float_literal_6_25 sum.case m1 m2 s1 s2 s3 v
    by simp
qed

lemma bmr_overflow_ex: "calculate_bmr male_label (Fin (2 ^ 1023)) (Fin 0) 0 = Inr PInf"
proof -
  have a5: "fl_of_int (5 * 0) = Inr (Fin 0)"
    using fl_of_int_small [of 0] by simp
  have "rnd (10 * 2 ^ 1023) = PInf"
    by (rule rnd_overflow) simp
  then have m1: "fl_mul (Fin 10) (Fin (2 ^ 1023)) = PInf"
    by simp
  have m2: "fl_mul (Fin 6.25) (Fin 0) = Fin 0"
    using rnd_int [of 0] by simp
  show ?thesis
    unfolding calculate_bmr_def a5 bind_result_def float_literal_6_25 sum.case m1 m2
    by (simp add: fl_sub_def)
qed

text \<open>
  Claim C2, amended. \<^verbatim>\<open>calculate_bmr\<close> evaluates
  \<open>10 * weight + 6.25 * height - 5 * age + 5\<close> for the male label and
  \<open>10 * weight + 6.25 * height - 5 * age - 161\<close> for every other gender value, in binary64
  arithmetic. The result is exactly the value of the formula whenever weight and height
  are multiples of 0.25 (of magnitude at most \<open>2 ^ 38\<close>, with an age of magnitude at most
  \<open>2 ^ 40\<close>). For every weight in [30, 300], height in [100, 250] and age in [10, 120] the
  result is a finite float within \<open>2 ^ -38\<close> of the value of the formula. A gender other
  than the male label gives what the female label gives, for all arguments. The two
  sample values are 1648.75 for (male, 70, 175, 30) and 1345.25 for (female, 60, 165, 25).
\<close>

theorem calculate_bmr_formula:
  "(\<bar>jw\<bar> \<le> 2 ^ 40 \<and> \<bar>jh\<bar> \<le> 2 ^ 40 \<and> \<bar>a\<bar> \<le> 2 ^ 40 \<longrightarrow>
      calculate_bmr g (Fin (of_int jw / 4)) (Fin (of_int jh / 4)) a
        = Inr (Fin (10 * (of_int jw / 4) + 6.25 * (of_int jh / 4) - 5 * of_int a
                    + (if g = male_label then 5 else - 161))))
   \<and> (30 \<le> w \<and> w \<le> 300 \<and> 100 \<le> h \<and> h \<le> 250 \<and> 10 \<le> n \<and> n \<le> 120 \<longrightarrow>
      (\<exists>y. calculate_bmr g (Fin w) (Fin h) n = Inr (Fin y)
         \<and> \<bar>y - (10 * w + 6.25 * h - 5 * of_int n + (if g = male_label then 5 else - 161))\<bar>
             \<le> 1 / 2 ^ 38))
   \<and> (g \<noteq> male_label \<longrightarrow> calculate_bmr g fw fh k = calculate_bmr female_label fw fh k)
   \<and> calculate_bmr male_label (Fin 70) (Fin 175) 30 = Inr (Fin 1648.75)
   \<and> calculate_bmr female_label (Fin 60) (Fin 165) 25 = Inr (Fin 1345.25)"
  using calculate_bmr_quarters [of jw jh a g] calculate_bmr_accepted_range [of w h n g]
    calculate_bmr_fallback [of g fw fh k] bmr_ex bmr_ex_female
  by blast

text \<open>
  An instance: the empty string as gender takes the female branch, at weight 70 and
  height 175 (both multiples of a quarter), at weight 70.125, and at a NaN weight.
\<close>

theorem calculate_bmr_formula_witness:
  "calculate_bmr [] (Fin (of_int 280 / 4)) (Fin (of_int 700 / 4)) 30 = Inr (Fin 1482.75)
   \<and> (\<exists>y. calculate_bmr [] (Fin 70.125) (Fin 175) 30 = Inr (Fin y)
         \<and> \<bar>y - 1484\<bar> \<le> 1 / 2 ^ 38)
   \<and> calculate_bmr [] NaN (Fin 175) 30 = calculate_bmr female_label NaN (Fin 175) 30"
  using calculate_bmr_formula [where jw = 280 and jh = 700 and a = 30 and g = "[]"
      and w = "70.125" and h = 175 and n = 30 and fw = NaN and fh = "Fin 175" and k = 30]
  by (simp add: male_label_def)

text \<open>
  Claim C2 as stated fails. The sample values that the claim states, 1573.75 and 602.25,
  are not what the function returns at those inputs. The result is not the value of the
  formula at every input either: at height \<open>179 + 2 ^ -45\<close> the product with 6.25 is
  rounded, and at weight \<open>2 ^ 1023\<close> the result is an infinity.
\<close>

theorem calculate_bmr_examples_counterexample:
  "calculate_bmr male_label (Fin 70) (Fin 175) 30 \<noteq> Inr (Fin 1573.75)
   \<and> calculate_bmr female_label (Fin 60) (Fin 165) 25 \<noteq> Inr (Fin 602.25)
   \<and> calculate_bmr male_label (Fin 70) (Fin (179 + 1 / 2 ^ 45)) 20
        \<noteq> Inr (Fin (10 * 70 + 6.25 * (179 + 1 / 2 ^ 45) - 5 * 20 + 5))
   \<and> calculate_bmr male_label (Fin (2 ^ 1023)) (Fin 0) 0 = Inr PInf"
proof -
  have a: "calculate_bmr male_label (Fin 70) (Fin 175) 30 \<noteq> Inr (Fin 1573.75)"
    unfolding bmr_ex by simp
  have b: "calculate_bmr female_label (Fin 60) (Fin 165) 25 \<noteq> Inr (Fin 602.25)"
    unfolding bmr_ex_female by simp
  have c: "calculate_bmr male_label (Fin 70) (Fin (179 + 1 / 2 ^ 45)) 20
        \<noteq> Inr (Fin (10 * 70 + 6.25 * (179 + 1 / 2 ^ 45) - 5 * 20 + 5))"
    unfolding bmr_rounded_ex by simp
  from a b c bmr_overflow_ex show ?thesis
    by (intro conjI)
qed

subsection \<open>The daily calories\<close>

text \<open>
  The dictionary look-ups agree with the multiplier and the adjustment of the
  specification, rounded to floats. Three operations round before \<^verbatim>\<open>round\<close>: the product
  with the multiplier, the sum \<open>1 + adjustment\<close>, and the product of the two.
\<close>

lemma daily_form:
  "calculate_daily_calories b a g =
     py_round (fl_mul (fl_mul b (float_literal (spec_activity_multiplier a)))
                      (fl_add (Fin 1) (float_literal (spec_goal_adjustment g))))"
  unfolding calculate_daily_calories_def Let_def activity_coef_spec goal_coef_spec ..

lemma daily_defaults:
  assumes "\<not> dict_contains ACTIVITY_COEFFICIENTS a" and "\<not> dict_contains GOAL_COEFFICIENTS g"
  shows "calculate_daily_calories b a g = py_round (fl_mul (fl_mul b (float_literal 1.2)) (Fin 1))"
proof -
  have a: "dict_get ACTIVITY_COEFFICIENTS a (float_literal 1.2) = float_literal 1.2"
    using assms(1) by (simp add: dict_contains_def dict_get_def)
  have g: "dict_get GOAL_COEFFICIENTS g (Fin 0) = Fin 0"
    using assms(2) by (simp add: dict_contains_def dict_get_def)
  have s: "fl_add (Fin 1) (Fin 0) = Fin 1"
    using rnd_1 by simp
  show ?thesis
    unfolding calculate_daily_calories_def Let_def a g s ..
qed

lemma daily_sample:
  "calculate_daily_calories (Fin 1573.75) activity_medium goal_maintain = Inr 2439"
proof -
  have a: "float_literal (spec_activity_multiplier activity_medium)
      = Fin (6980579422424269 / 4503599627370496)"
    using literal_1_55 by (simp add: spec_activity_multiplier_def label_defs)
  have g: "float_literal (spec_goal_adjustment goal_maintain) = Fin 0"
    using literal_0 by (simp add: spec_goal_adjustment_def label_defs)
  have t: "fl_mul (Fin 1573.75) (Fin (6980579422424269 / 4503599627370496))
      = Fin (39029 / 16)"
    unfolding fl_mul.simps
    by (subst rnd_normal [where k = 11]) (simp_all add: round_half_even_def)
  have s: "fl_add (Fin 1) (Fin 0) = Fin 1"
    using rnd_1 by simp
  have v: "fl_mul (Fin (39029 / 16)) (Fin 1) = Fin (39029 / 16)"
    by (rule fl_mul_one [of 39029]) simp_all
  have r: "py_round (Fin (39029 / 16)) = Inr 2439"
    by (simp add: round_half_even_def)
  show ?thesis
    unfolding daily_form a g t s v r ..
qed

lemma daily_rounding_ex:
  "calculate_daily_calories (Fin (1003.75 + 1 / 2 ^ 43)) activity_minimal goal_maintain
     = Inr 1204
   \<and> round_half_even ((1003.75 + 1 / 2 ^ 43) * spec_activity_multiplier activity_minimal
                        * (1 + spec_goal_adjustment goal_maintain)) = 1205"
proof -
  have a: "float_literal (spec_activity_multiplier activity_minimal)
      = Fin (5404319552844595 / 4503599627370496)"
    using literal_1_2 by (simp add: spec_activity_multiplier_def)
  have g: "float_literal (spec_goal_adjustment goal_maintain) = Fin 0"
    using literal_0 by (simp add: spec_goal_adjustment_def label_defs)
  have t: "fl_mul (Fin (1003.75 + 1 / 2 ^ 43)) (Fin (5404319552844595 / 4503599627370496))
      = Fin (2409 / 2)"
    unfolding fl_mul.simps
    by (subst rnd_normal [where k = 10]) (simp_all add: round_half_even_def)
  have s: "fl_add (Fin 1) (Fin 0) = Fin 1"
    using rnd_1 by simp
  have v: "fl_mul (Fin (2409 / 2)) (Fin 1) = Fin (2409 / 2)"
    by (rule fl_mul_one [of 19272]) simp_all
  have r: "py_round (Fin (2409 / 2)) = Inr 1204"
    by (simp add: round_half_even_def)
  have c: "calculate_daily_calories (Fin (1003.75 + 1 / 2 ^ 43)) activity_minimal goal_maintain
     = Inr 1204"
    unfolding daily_form a g t s v r ..
  have e: "round_half_even ((1003.75 + 1 / 2 ^ 43) * spec_activity_multiplier activity_minimal
                        * (1 + spec_goal_adjustment goal_maintain)) = 1205"
    by (simp add: spec_activity_multiplier_def spec_goal_adjustment_def label_defs
        round_half_even_def)
  from c e show ?thesis ..
qed

lemma daily_overflow_ex:
  "calculate_daily_calories (Fin (2 ^ 1023)) activity_very_high goal_gain = Inl OverflowError"
proof -
  have a: "float_literal (spec_activity_multiplier activity_very_high)
      = Fin (4278419646001971 / 2251799813685248)"
    using literal_1_9 by (simp add: spec_activity_multiplier_def label_defs)
  have g: "float_literal (spec_goal_adjustment goal_gain)
      = Fin (3602879701896397 / 18014398509481984)"
    using literal_0_2 by (simp add: spec_goal_adjustment_def label_defs)
  have "rnd (2 ^ 1023 * (4278419646001971 / 2251799813685248))
      = Fin (2 ^ 1023 * (4278419646001971 / 2251799813685248))"
    by (rule rnd_exact [of _ 4278419646001971 972]) simp_all
  then have t: "fl_mul (Fin (2 ^ 1023)) (Fin (4278419646001971 / 2251799813685248))
      = Fin (2 ^ 1023 * (4278419646001971 / 2251799813685248))"
    by simp
  have "rnd (2 ^ 1023 * (4278419646001971 / 2251799813685248)
              * (5404319552844595 / 4503599627370496)) = PInf"
    by (rule rnd_overflow) simp
  then have v: "fl_mul (Fin (2 ^ 1023 * (4278419646001971 / 2251799813685248)))
      (Fin (5404319552844595 / 4503599627370496)) = PInf"
    by simp
  show ?thesis
    unfolding daily_form a g t one_plus_0_2 v by simp
qed

lemma spec_activity_multiplier_range:
  "1 \<le> spec_activity_multiplier a \<and> spec_activity_multiplier a < 2"
  by (simp add: spec_activity_multiplier_def)

lemma spec_goal_adjustment_range:
  "- (1 / 5) \<le> spec_goal_adjustment g \<and> spec_goal_adjustment g \<le> 1 / 5"
  by (simp add: spec_goal_adjustment_def)

lemma daily_error:
  assumes b: "\<bar>b\<bar> \<le> 2 ^ 14"
  shows "\<exists>v. calculate_daily_calories (Fin b) a g = Inr (round_half_even v)
    \<and> \<bar>v - b * spec_activity_multiplier a * (1 + spec_goal_adjustment g)\<bar> \<le> 1 / 2 ^ 34"
proof -
  define M where "M = spec_activity_multiplier a"
  define G where "G = spec_goal_adjustment g"
  define d :: real where "d = 1 / 2 ^ 56"
  have Mr: "1 \<le> M" "M < 2"
    using spec_activity_multiplier_range [of a] by (simp_all add: M_def)
  have Gr: "- (1 / 5) \<le> G" "G \<le> 1 / 5"
    using spec_goal_adjustment_range [of g] by (simp_all add: G_def)
  have "\<bar>M\<bar> < 2 powi 1"
    using Mr by simp
  from rnd_error [OF this]
  obtain m where m: "rnd M = Fin m" "\<bar>m - M\<bar> \<le> 2 powi (1 - 54)" "\<bar>m\<bar> \<le> 2 powi 1"
    by auto
  have "\<bar>G\<bar> < 2 powi (- 2)"
    using Gr by (simp; linarith)
  from rnd_error [OF this]
  obtain gc where gc: "rnd G = Fin gc" "\<bar>gc - G\<bar> \<le> 2 powi (- 2 - 54)"
      "\<bar>gc\<bar> \<le> 2 powi (- 2)"
    by auto
  have gcb: "\<bar>gc\<bar> \<le> 1 / 4"
    using gc(3) by simp
  have "\<bar>1 + gc\<bar> < 2 powi 1"
    using gcb by (simp; linarith)
  from rnd_error [OF this]
  obtain s where s: "rnd (1 + gc) = Fin s" "\<bar>s - (1 + gc)\<bar> \<le> 2 powi (1 - 54)"
      "\<bar>s\<bar> \<le> 2 powi 1"
    by auto
  have mb: "\<bar>m\<bar> \<le> 2" using m(3) by simp
  have sb: "\<bar>s\<bar> \<le> 2" using s(3) by simp
  have bm: "\<bar>b * m\<bar> \<le> 2 ^ 14 * 2"
    using b mb by (rule abs_mult_bound)
  then have "\<bar>b * m\<bar> < 2 powi 16"
    by simp
  from rnd_error [OF this]
  obtain t where t: "rnd (b * m) = Fin t" "\<bar>t - b * m\<bar> \<le> 2 powi (16 - 54)"
      "\<bar>t\<bar> \<le> 2 powi 16"
    by auto
  have tb: "\<bar>t\<bar> \<le> 2 ^ 16" using t(3) by simp
  have "\<bar>t * s\<bar> \<le> 2 ^ 16 * 2"
    using tb sb by (rule abs_mult_bound)
  then have "\<bar>t * s\<bar> < 2 powi 18"
    by simp
  from rnd_error [OF this]
  obtain v where v: "rnd (t * s) = Fin v" "\<bar>v - t * s\<bar> \<le> 2 powi (18 - 54)"
    by auto
  have res: "calculate_daily_calories (Fin b) a g = Inr (round_half_even v)"
    unfolding daily_form float_literal_def M_def [symmetric] G_def [symmetric] m(1) gc(1)
      fl_mul.simps fl_add.simps t(1) s(1) v(1) py_round.simps ..
  have e1: "\<bar>m - M\<bar> \<le> 8 * d"
    using m(2) by (simp add: d_def field_simps)
  have e2: "\<bar>gc - G\<bar> \<le> d"
    using gc(2) by (simp add: d_def field_simps)
  have e3: "\<bar>s - (1 + gc)\<bar> \<le> 8 * d"
    using s(2) by (simp add: d_def field_simps)
  have e4: "\<bar>t - b * m\<bar> \<le> 262144 * d"
    using t(2) by (simp add: d_def field_simps)
  have e5: "\<bar>v - t * s\<bar> \<le> 1048576 * d"
    using v(2) by (simp add: d_def field_simps)
  have p1: "\<bar>(t - b * m) * s\<bar> \<le> (262144 * d) * 2"
    using e4 sb by (rule abs_mult_bound)
  have p2: "\<bar>(b * m) * (s - (1 + gc))\<bar> \<le> (2 ^ 14 * 2) * (8 * d)"
    using bm e3 by (rule abs_mult_bound)
  have p3: "\<bar>(b * m) * (gc - G)\<bar> \<le> (2 ^ 14 * 2) * d"
    using bm e2 by (rule abs_mult_bound)
  have "\<bar>b * (m - M)\<bar> \<le> 2 ^ 14 * (8 * d)"
    using b e1 by (rule abs_mult_bound)
  moreover have "\<bar>1 + G\<bar> \<le> 2"
    using Gr by linarith
  ultimately have p4: "\<bar>(b * (m - M)) * (1 + G)\<bar> \<le> (2 ^ 14 * (8 * d)) * 2"
    by (rule abs_mult_bound)
  have split: "t * s - b * M * (1 + G)
      = (t - b * m) * s + (b * m) * (s - (1 + gc)) + (b * m) * (gc - G)
        + (b * (m - M)) * (1 + G)"
    by (simp add: algebra_simps)
  have "\<bar>t * s - b * M * (1 + G)\<bar> \<le> 1081344 * d"
    unfolding split using p1 p2 p3 p4 by (simp; linarith)
  with e5 have "\<bar>v - b * M * (1 + G)\<bar> \<le> 4194304 * d"
    by linarith
  then have "\<bar>v - b * M * (1 + G)\<bar> \<le> 1 / 2 ^ 34"
    by (simp add: d_def)
  with res show ?thesis
    unfolding M_def G_def by blast
qed

text \<open>
  Claim C3, amended. For every bmr and every activity and goal label,
  \<^verbatim>\<open>calculate_daily_calories\<close> is \<^verbatim>\<open>round\<close> applied to the binary64 product of bmr, the
  float of the activity multiplier and the float sum of 1 and the goal adjustment; a
  label outside the five activity labels has multiplier 1.20 and a label outside the
  three goal labels has adjustment 0, so with both labels unknown the result is the
  rounding of \<open>bmr * 1.2 * 1\<close>. For a finite bmr of magnitude at most \<open>2 ^ 14\<close> the function
  returns the rounding of a number within \<open>2 ^ -34\<close> of
  \<open>bmr * multiplier * (1 + adjustment)\<close>. The rounding to an integer is one policy
  throughout: the result is within one half of the rounded number, and a number halfway
  between two integers goes to the even one. At (1573.75, medium activity, maintain) the
  result is 2439.
\<close>

theorem calculate_daily_calories_formula:
  "calculate_daily_calories b a g =
     py_round (fl_mul (fl_mul b (float_literal (spec_activity_multiplier a)))
                      (fl_add (Fin 1) (float_literal (spec_goal_adjustment g))))
   \<and> (\<not> dict_contains ACTIVITY_COEFFICIENTS a' \<and> \<not> dict_contains GOAL_COEFFICIENTS g' \<longrightarrow>
        calculate_daily_calories b a' g'
          = py_round (fl_mul (fl_mul b (float_literal 1.2)) (Fin 1)))
   \<and> (\<bar>x\<bar> \<le> 2 ^ 14 \<longrightarrow>
        (\<exists>v. calculate_daily_calories (Fin x) a g = Inr (round_half_even v)
           \<and> \<bar>v - x * spec_activity_multiplier a * (1 + spec_goal_adjustment g)\<bar>
               \<le> 1 / 2 ^ 34))
   \<and> \<bar>real_of_int (round_half_even z) - z\<bar> \<le> 1 / 2
   \<and> round_half_even (of_int k + 1 / 2) = (if even k then k else k + 1)
   \<and> calculate_daily_calories (Fin 1573.75) activity_medium goal_maintain = Inr 2439"
  using daily_form [of b a g] daily_defaults [of a' g' b] daily_error [of x a g]
    round_half_even_nearest [of z] round_half_even_tie [of k] daily_sample
  by blast

text \<open>
  An instance: the empty string as both labels, and the sample input of the claim.
\<close>

theorem calculate_daily_calories_formula_witness:
  "calculate_daily_calories (Fin 100) [] [] = py_round (fl_mul (fl_mul (Fin 100) (float_literal 1.2)) (Fin 1))
   \<and> (\<exists>v. calculate_daily_calories (Fin 1573.75) activity_medium goal_maintain
             = Inr (round_half_even v)
         \<and> \<bar>v - 1573.75 * 1.55 * (1 + 0)\<bar> \<le> 1 / 2 ^ 34)"
proof -
  have n: "\<not> dict_contains ACTIVITY_COEFFICIENTS []" "\<not> dict_contains GOAL_COEFFICIENTS []"
    by (simp_all add: dict_contains_def ACTIVITY_COEFFICIENTS_def GOAL_COEFFICIENTS_def
        label_defs)
  have m: "spec_activity_multiplier activity_medium = 1.55"
    "spec_goal_adjustment goal_maintain = 0"
    by (simp_all add: spec_activity_multiplier_def spec_goal_adjustment_def label_defs)
  have x: "\<bar>1573.75 :: real\<bar> \<le> 2 ^ 14"
    by simp
  from calculate_daily_calories_formula [where b = "Fin 100" and a' = "[]" and g' = "[]"
      and x = "1573.75" and a = activity_medium and g = goal_maintain]
  show ?thesis
    unfolding m using n x by blast
qed

text \<open>
  Claim C3 as stated fails. At the bmr \<open>1003.75 + 2 ^ -43\<close> with the minimal activity the
  float product is exactly 1204.5 and the function returns 1204, while the rounding of
  the real product \<open>bmr * 1.2\<close>, which is above 1204.5, is 1205. At the bmr \<open>2 ^ 1023\<close> with
  the highest activity and the gain goal the product is an infinity and \<^verbatim>\<open>round\<close> raises
  \<^verbatim>\<open>OverflowError\<close>, so the function returns no number.
\<close>

theorem calculate_daily_calories_counterexample:
  "calculate_daily_calories (Fin (1003.75 + 1 / 2 ^ 43)) activity_minimal goal_maintain
     = Inr 1204
   \<and> round_half_even ((1003.75 + 1 / 2 ^ 43) * spec_activity_multiplier activity_minimal
                        * (1 + spec_goal_adjustment goal_maintain)) = 1205
   \<and> calculate_daily_calories (Fin (2 ^ 1023)) activity_very_high goal_gain
       = Inl OverflowError"
  using daily_rounding_ex daily_overflow_ex by (intro conjI) simp_all

subsection \<open>The macronutrients\<close>

text \<open>
  For a calorie count of magnitude at most \<open>2 ^ 31\<close> each share computed in floats is
  within \<open>2 ^ -21\<close> of the exact share. An exact share is a multiple of 1/40, 1/36 or 1/80,
  so it is either halfway between two integers or at least 1/80 away from halfway. In the
  first case the float share is the exact share, and in the second the two round to the
  same integer.
\<close>

lemma calculate_macros_overflow: "calculate_macros (2 ^ 1024) = Inl OverflowError"
  by (simp add: calculate_macros_def bind_result_def fl_of_int_overflow)

lemma macros_sample: "calculate_macros 2439 = Inr \<lparr> protein = 183, fat = 68, carbs = 274 \<rparr>"
proof -
  have c: "fl_of_int 2439 = Inr (Fin 2439)"
    using fl_of_int_small [of 2439] by simp
  have p1: "fl_mul (Fin 2439) (Fin (5404319552844595 / 18014398509481984))
      = Fin (6436101264349593 / 8796093022208)"
    unfolding fl_mul.simps
    by (rule rnd_eval [where k = 9]) (simp_all add: round_half_even_def)
  have p2: "fl_div (Fin (6436101264349593 / 8796093022208)) (Fin 4)
      = Inr (Fin (6436101264349593 / 35184372088832))"
    by (rule fl_div_eval, simp, rule rnd_eval [where k = 7]) (simp_all add: round_half_even_def)
  have p3: "py_round (Fin (6436101264349593 / 35184372088832)) = Inr 183"
    by (simp add: round_half_even_def)
  have f1: "fl_mul (Fin 2439) (Fin 0.25) = Fin (9756 / 16)"
    unfolding fl_mul.simps by (rule trans [OF _ rnd_sixteenth [of _ 9756]]) simp_all
  have f2: "fl_div (Fin (9756 / 16)) (Fin 9) = Inr (Fin (1084 / 16))"
    by (rule fl_div_eval, simp, rule trans [OF _ rnd_sixteenth [of _ 1084]]) simp_all
  have f3: "py_round (Fin (1084 / 16)) = Inr 68"
    by (simp add: round_half_even_def)
  have c1: "fl_mul (Fin 2439) (Fin (8106479329266893 / 18014398509481984))
      = Fin (4827075948262195 / 4398046511104)"
    unfolding fl_mul.simps
    by (rule rnd_eval [where k = 10]) (simp_all add: round_half_even_def)
  have c2: "fl_div (Fin (4827075948262195 / 4398046511104)) (Fin 4)
      = Inr (Fin (4827075948262195 / 17592186044416))"
    by (rule fl_div_eval, simp, rule rnd_eval [where k = 8]) (simp_all add: round_half_even_def)
  have c3: "py_round (Fin (4827075948262195 / 17592186044416)) = Inr 274"
    by (simp add: round_half_even_def)
  show ?thesis
    unfolding calculate_macros_def c bind_result_def sum.case Let_def literal_0_3
      literal_0_25 literal_0_45 p1 p2 p3 f1 f2 f3 c1 c2 c3 ..
qed

lemma macros_2556: "calculate_macros 2556 = Inr \<lparr> protein = 192, fat = 71, carbs = 288 \<rparr>"
proof -
  have c: "fl_of_int 2556 = Inr (Fin 2556)"
    using fl_of_int_small [of 2556] by simp
  have p1: "fl_mul (Fin 2556) (Fin (5404319552844595 / 18014398509481984))
      = Fin (3372422064714547 / 4398046511104)"
    unfolding fl_mul.simps
    by (rule rnd_eval [where k = 9]) (simp_all add: round_half_even_def)
  have p2: "fl_div (Fin (3372422064714547 / 4398046511104)) (Fin 4)
      = Inr (Fin (3372422064714547 / 17592186044416))"
    by (rule fl_div_eval, simp, rule rnd_eval [where k = 7]) (simp_all add: round_half_even_def)
  have p3: "py_round (Fin (3372422064714547 / 17592186044416)) = Inr 192"
    by (simp add: round_half_even_def)
  have f1: "fl_mul (Fin 2556) (Fin 0.25) = Fin 639"
    unfolding fl_mul.simps using rnd_int [of 639] by simp
  have f2: "fl_div (Fin 639) (Fin 9) = Inr (Fin 71)"
    using rnd_int [of 71] by simp
  have f3: "py_round (Fin 71) = Inr 71"
    by (simp add: round_half_even_def)
  have c1: "fl_mul (Fin 2556) (Fin (8106479329266893 / 18014398509481984))
      = Fin (5058633097071821 / 4398046511104)"
    unfolding fl_mul.simps
    by (rule rnd_eval [where k = 10]) (simp_all add: round_half_even_def)
  have c2: "fl_div (Fin (5058633097071821 / 4398046511104)) (Fin 4)
      = Inr (Fin (5058633097071821 / 17592186044416))"
    by (rule fl_div_eval, simp, rule rnd_eval [where k = 8]) (simp_all add: round_half_even_def)
  have c3: "py_round (Fin (5058633097071821 / 17592186044416)) = Inr 288"
    by (simp add: round_half_even_def)
  show ?thesis
    unfolding calculate_macros_def c bind_result_def sum.case Let_def literal_0_3
      literal_0_25 literal_0_45 p1 p2 p3 f1 f2 f3 c1 c2 c3 ..
qed

lemma share_error:
  assumes c: "\<bar>c\<bar> \<le> 2 ^ 31" and q: "0 \<le> q" "q < 1 / 2" and dv: "1 \<le> dv"
  shows "\<exists>p. fl_div (fl_mul (Fin (of_int c)) (float_literal q)) (Fin dv) = Inr (Fin p)
    \<and> \<bar>p - of_int c * q / dv\<bar> \<le> 1 / 2 ^ 21"
proof -
  define d :: real where "d = 1 / 2 ^ 55"
  define x0 :: real where "x0 = of_int c"
  have x0b: "\<bar>x0\<bar> \<le> 2 ^ 31"
  proof -
    have "real_of_int \<bar>c\<bar> \<le> real_of_int (2 ^ 31)"
      using c by (simp only: of_int_le_iff)
    then show ?thesis by (simp add: x0_def)
  qed
  have "\<bar>q\<bar> < 2 powi (- 1)"
    using q by simp
  from rnd_error [OF this]
  obtain l where l: "rnd q = Fin l" "\<bar>l - q\<bar> \<le> 2 powi (- 1 - 54)" "\<bar>l\<bar> \<le> 2 powi (- 1)"
    by auto
  have lb: "\<bar>l\<bar> \<le> 1 / 2" using l(3) by simp
  have xl: "\<bar>x0 * l\<bar> \<le> 2 ^ 31 * (1 / 2)"
    using x0b lb by (rule abs_mult_bound)
  then have "\<bar>x0 * l\<bar> < 2 powi 31"
    by simp
  from rnd_error [OF this]
  obtain x where x: "rnd (x0 * l) = Fin x" "\<bar>x - x0 * l\<bar> \<le> 2 powi (31 - 54)"
      "\<bar>x\<bar> \<le> 2 powi 31"
    by auto
  have dvpos: "0 < dv" using dv by simp
  have inv: "\<bar>1 / dv\<bar> \<le> 1"
    using dv by simp
  have xb: "\<bar>x\<bar> \<le> 2 ^ 31" using x(3) by simp
  have "\<bar>x * (1 / dv)\<bar> \<le> 2 ^ 31 * 1"
    using xb inv by (rule abs_mult_bound)
  then have "\<bar>x / dv\<bar> < 2 powi 32"
    by simp
  from rnd_error [OF this]
  obtain p where p: "rnd (x / dv) = Fin p" "\<bar>p - x / dv\<bar> \<le> 2 powi (32 - 54)"
    by auto
  have res: "fl_div (fl_mul (Fin (of_int c)) (float_literal q)) (Fin dv) = Inr (Fin p)"
    unfolding float_literal_def l(1) fl_mul.simps x0_def [symmetric] x(1)
    using dvpos p(1) by simp
  have d0: "0 \<le> d"
    by (simp add: d_def)
  have e1: "\<bar>l - q\<bar> \<le> d"
    using l(2) by (simp add: d_def field_simps)
  have e2: "\<bar>x - x0 * l\<bar> \<le> 2 ^ 32 * d"
    using x(2) by (simp add: d_def field_simps)
  have e3: "\<bar>p - x / dv\<bar> \<le> 2 ^ 33 * d"
    using p(2) by (simp add: d_def field_simps)
  have "\<bar>x0 * (l - q)\<bar> \<le> 2 ^ 31 * d"
    using x0b e1 by (rule abs_mult_bound)
  with e2 have "\<bar>x - x0 * q\<bar> \<le> 2 ^ 32 * d + 2 ^ 31 * d"
    by (simp add: algebra_simps; linarith)
  from this inv have "\<bar>(x - x0 * q) * (1 / dv)\<bar> \<le> (2 ^ 32 * d + 2 ^ 31 * d) * 1"
    by (rule abs_mult_bound)
  then have "\<bar>x / dv - x0 * q / dv\<bar> \<le> 2 ^ 32 * d + 2 ^ 31 * d"
    by (simp add: diff_divide_distrib)
  then have "\<bar>p - x / dv\<bar> + \<bar>x / dv - x0 * q / dv\<bar> \<le> 2 ^ 33 * d + (2 ^ 32 * d + 2 ^ 31 * d)"
    using e3 by (rule_tac add_mono)
  moreover have "\<bar>p - x0 * q / dv\<bar> \<le> \<bar>p - x / dv\<bar> + \<bar>x / dv - x0 * q / dv\<bar>"
    using abs_triangle_ineq [of "p - x / dv" "x / dv - x0 * q / dv"] by simp
  moreover have "2 ^ 33 * d + (2 ^ 32 * d + 2 ^ 31 * d) \<le> 2 ^ 34 * d"
    using d0 by simp
  ultimately have "\<bar>p - x0 * q / dv\<bar> \<le> 2 ^ 34 * d"
    by (rule_tac order_trans [OF _ order_trans])
  then have "\<bar>p - x0 * q / dv\<bar> \<le> 1 / 2 ^ 21"
    by (simp add: d_def)
  with res show ?thesis
    unfolding x0_def by blast
qed

lemma mod_decomp: "(a::int) mod b = r \<Longrightarrow> a = b * (a div b) + r"
  by auto

lemma not_tie_protein: "c mod 10 \<noteq> 0 \<Longrightarrow> (3 * c) mod (2 * 20) \<noteq> (20::int)"
proof
  assume n: "c mod 10 \<noteq> 0" and t: "(3 * c) mod (2 * 20) = 20"
  define q where "q = (3 * c) div (2 * 20)"
  have "3 * c = 2 * 20 * q + 20"
    unfolding q_def using t by (rule mod_decomp)
  then have "c = 10 * (108 * q + 54 - 8 * c)"
    by simp
  then have "10 dvd c"
    by (rule dvdI)
  with n show False
    by (simp add: mod_eq_0_iff_dvd)
qed

lemma not_tie_carbs: "c mod 20 \<noteq> 0 \<Longrightarrow> (9 * c) mod (2 * 40) \<noteq> (40::int)"
proof
  assume n: "c mod 20 \<noteq> 0" and t: "(9 * c) mod (2 * 40) = 40"
  define q where "q = (9 * c) div (2 * 40)"
  have "9 * c = 2 * 40 * q + 40"
    unfolding q_def using t by (rule mod_decomp)
  then have "c = 20 * (36 * q + 18 - 4 * c)"
    by simp
  then have "20 dvd c"
    by (rule dvdI)
  with n show False
    by (simp add: mod_eq_0_iff_dvd)
qed

lemma not_tie_fat: "c mod 18 \<noteq> 0 \<Longrightarrow> c mod (2 * 18) \<noteq> (18::int)"
proof
  assume n: "c mod 18 \<noteq> 0" and t: "c mod (2 * 18) = 18"
  define q where "q = c div (2 * 18)"
  have "c = 2 * 18 * q + 18"
    unfolding q_def using t by (rule mod_decomp)
  then have "c = 18 * (2 * q + 1)"
    by simp
  then have "18 dvd c"
    by (rule dvdI)
  with n show False
    by (simp add: mod_eq_0_iff_dvd)
qed

lemma protein_exact:
  assumes c: "\<bar>c\<bar> \<le> 2 ^ 31"
  shows "\<exists>v. fl_div (fl_mul (Fin (of_int c)) (float_literal 0.30)) (Fin 4) = Inr (Fin v)
    \<and> round_half_even v = round_half_even (of_int c * 0.30 / 4)"
proof (cases "c mod 10 = 0")
  case True
  then obtain n where n: "c = 10 * n" by (auto simp: mod_eq_0_iff_dvd)
  define x :: real where "x = of_int c * (5404319552844595 / 18014398509481984)"
  have cr: "real_of_int c = 10 * of_int n" by (simp add: n)
  have n3: "\<bar>3 * n\<bar> < 2 ^ 52" using c n by simp
  have d: "x - of_int (3 * n) = - (of_int n / 9007199254740992)"
    by (simp add: x_def cr)
  have "\<bar>x - of_int (3 * n)\<bar> * 2 ^ 54 = 2 * \<bar>real_of_int n\<bar>"
    by (simp only: d) (simp add: abs_mult)
  moreover have "\<bar>x\<bar> = \<bar>real_of_int n\<bar> * (54043195528445950 / 18014398509481984)"
    by (simp add: x_def cr abs_mult)
  ultimately have "\<bar>x - of_int (3 * n)\<bar> * 2 ^ 54 \<le> \<bar>x\<bar>"
    by (simp; linarith)
  with n3 have "rnd x = Fin (of_int (3 * n))"
    by (rule rnd_near_int)
  then have m: "fl_mul (Fin (of_int c)) (float_literal 0.30) = Fin (of_int (3 * n))"
    unfolding literal_0_3 fl_mul.simps x_def .
  have e: "of_int c * 0.30 / 4 = real_of_int (3 * n) / 4"
    by (simp add: cr)
  have r: "fl_div (fl_mul (Fin (of_int c)) (float_literal 0.30)) (Fin 4)
      = Inr (Fin (of_int c * 0.30 / 4))"
    unfolding m e by (rule quarter_exact [OF n3])
  show ?thesis
    by (rule exI [of _ "of_int c * 0.30 / 4"]) (simp only: r simp_thms)
next
  case False
  obtain v where v: "fl_div (fl_mul (Fin (of_int c)) (float_literal 0.30)) (Fin 4) = Inr (Fin v)"
      "\<bar>v - of_int c * 0.30 / 4\<bar> \<le> 1 / 2 ^ 21"
    using share_error [OF c, of "0.30" 4] by auto
  have "(3 * c) mod (2 * 20) \<noteq> 20"
    using False by (rule not_tie_protein)
  moreover have "of_int c * 0.30 / 4 = real_of_int (3 * c) / of_int (2 * 20)"
    by simp
  moreover have "\<bar>v - of_int c * 0.30 / 4\<bar> * of_int (4 * 20) < 1"
    using v(2) by simp
  ultimately have "round_half_even v = round_half_even (of_int c * 0.30 / 4)"
    by (intro round_stable [where N = "3 * c" and h = 20]) simp_all
  with v(1) show ?thesis by blast
qed

lemma carbs_exact:
  assumes c: "\<bar>c\<bar> \<le> 2 ^ 31"
  shows "\<exists>v. fl_div (fl_mul (Fin (of_int c)) (float_literal 0.45)) (Fin 4) = Inr (Fin v)
    \<and> round_half_even v = round_half_even (of_int c * 0.45 / 4)"
proof (cases "c mod 20 = 0")
  case True
  then obtain n where n: "c = 20 * n" by (auto simp: mod_eq_0_iff_dvd)
  define x :: real where "x = of_int c * (8106479329266893 / 18014398509481984)"
  have cr: "real_of_int c = 20 * of_int n" by (simp add: n)
  have n9: "\<bar>9 * n\<bar> < 2 ^ 52" using c n by simp
  have d: "x - of_int (9 * n) = of_int n / 4503599627370496"
    by (simp add: x_def cr)
  have "\<bar>x - of_int (9 * n)\<bar> * 2 ^ 54 = 4 * \<bar>real_of_int n\<bar>"
    by (simp only: d) (simp add: abs_mult)
  moreover have "\<bar>x\<bar> = \<bar>real_of_int n\<bar> * (162129586585337860 / 18014398509481984)"
    by (simp add: x_def cr abs_mult)
  ultimately have "\<bar>x - of_int (9 * n)\<bar> * 2 ^ 54 \<le> \<bar>x\<bar>"
    by (simp; linarith)
  with n9 have "rnd x = Fin (of_int (9 * n))"
    by (rule rnd_near_int)
  then have m: "fl_mul (Fin (of_int c)) (float_literal 0.45) = Fin (of_int (9 * n))"
    unfolding literal_0_45 fl_mul.simps x_def .
  have e: "of_int c * 0.45 / 4 = real_of_int (9 * n) / 4"
    by (simp add: cr)
  have r: "fl_div (fl_mul (Fin (of_int c)) (float_literal 0.45)) (Fin 4)
      = Inr (Fin (of_int c * 0.45 / 4))"
    unfolding m e by (rule quarter_exact [OF n9])
  show ?thesis
    by (rule exI [of _ "of_int c * 0.45 / 4"]) (simp only: r simp_thms)
next
  case False
  obtain v where v: "fl_div (fl_mul (Fin (of_int c)) (float_literal 0.45)) (Fin 4) = Inr (Fin v)"
      "\<bar>v - of_int c * 0.45 / 4\<bar> \<le> 1 / 2 ^ 21"
    using share_error [OF c, of "0.45" 4] by auto
  have "(9 * c) mod (2 * 40) \<noteq> 40"
    using False by (rule not_tie_carbs)
  moreover have "of_int c * 0.45 / 4 = real_of_int (9 * c) / of_int (2 * 40)"
    by simp
  moreover have "\<bar>v - of_int c * 0.45 / 4\<bar> * of_int (4 * 40) < 1"
    using v(2) by simp
  ultimately have "round_half_even v = round_half_even (of_int c * 0.45 / 4)"
    by (intro round_stable [where N = "9 * c" and h = 40]) simp_all
  with v(1) show ?thesis by blast
qed

lemma fat_exact:
  assumes c: "\<bar>c\<bar> \<le> 2 ^ 31"
  shows "\<exists>v. fl_div (fl_mul (Fin (of_int c)) (float_literal 0.25)) (Fin 9) = Inr (Fin v)
    \<and> round_half_even v = round_half_even (of_int c * 0.25 / 9)"
proof (cases "c mod 18 = 0")
  case True
  then obtain n where n: "c = 18 * n" by (auto simp: mod_eq_0_iff_dvd)
  have cr: "real_of_int c = 18 * of_int n" by (simp add: n)
  have c53: "\<bar>c\<bar> < 2 ^ 53" using c by simp
  have n52: "\<bar>n\<bar> < 2 ^ 53" using c n by simp
  have cb: "\<bar>real_of_int c\<bar> \<le> 2 ^ 31" using c by (rule small_int_real)
  then have "\<bar>real_of_int c * 0.25\<bar> < 2 powi 1024"
    by simp
  then have "rnd (real_of_int c * 0.25) = Fin (real_of_int c * 0.25)"
    using c53 by (intro rnd_exact [of _ c "- 2"]) simp_all
  then have m: "fl_mul (Fin (of_int c)) (float_literal 0.25) = Fin (of_int c * 0.25)"
    unfolding literal_0_25 fl_mul.simps .
  have q: "real_of_int c * 0.25 / 9 = of_int n / 2"
    by (simp add: cr)
  have "real_of_int \<bar>n\<bar> < real_of_int (2 ^ 53)"
    using n52 by (simp only: of_int_less_iff)
  then have "\<bar>real_of_int n / 2\<bar> < 2 powi 1024"
    by simp
  then have "rnd (real_of_int n / 2) = Fin (real_of_int n / 2)"
    using n52 by (intro rnd_exact [of _ n "- 1"]) simp_all
  then have rr: "rnd (real_of_int c * 0.25 / 9) = Fin (real_of_int c * 0.25 / 9)"
    unfolding q .
  have r: "fl_div (fl_mul (Fin (of_int c)) (float_literal 0.25)) (Fin 9)
      = Inr (Fin (of_int c * 0.25 / 9))"
    unfolding m by (rule fl_div_eval [OF _ rr]) simp
  show ?thesis
    by (rule exI [of _ "of_int c * 0.25 / 9"]) (simp only: r simp_thms)
next
  case False
  obtain v where v: "fl_div (fl_mul (Fin (of_int c)) (float_literal 0.25)) (Fin 9) = Inr (Fin v)"
      "\<bar>v - of_int c * 0.25 / 9\<bar> \<le> 1 / 2 ^ 21"
    using share_error [OF c, of "0.25" 9] by auto
  have "c mod (2 * 18) \<noteq> 18"
    using False by (rule not_tie_fat)
  moreover have "of_int c * 0.25 / 9 = real_of_int c / of_int (2 * 18)"
    by simp
  moreover have "\<bar>v - of_int c * 0.25 / 9\<bar> * of_int (4 * 18) < 1"
    using v(2) by simp
  ultimately have "round_half_even v = round_half_even (of_int c * 0.25 / 9)"
    by (intro round_stable [where N = c and h = 18]) simp_all
  with v(1) show ?thesis by blast
qed

lemma calculate_macros_exact:
  assumes c: "\<bar>c\<bar> \<le> 2 ^ 31"
  shows "calculate_macros c =
     Inr \<lparr> protein = round_half_even (of_int c * 0.30 / 4),
           fat = round_half_even (of_int c * 0.25 / 9),
           carbs = round_half_even (of_int c * 0.45 / 4) \<rparr>"
proof -
  have "\<bar>c\<bar> < 2 ^ 53"
    using c by simp
  then have cf: "fl_of_int c = Inr (Fin (of_int c))"
    by (rule fl_of_int_small)
  obtain sp where sp: "fl_div (fl_mul (Fin (of_int c)) (float_literal 0.30)) (Fin 4) = Inr (Fin sp)"
      "round_half_even sp = round_half_even (of_int c * 0.30 / 4)"
    using protein_exact [OF c] by auto
  obtain sf where sf: "fl_div (fl_mul (Fin (of_int c)) (float_literal 0.25)) (Fin 9) = Inr (Fin sf)"
      "round_half_even sf = round_half_even (of_int c * 0.25 / 9)"
    using fat_exact [OF c] by auto
  obtain sc where sc: "fl_div (fl_mul (Fin (of_int c)) (float_literal 0.45)) (Fin 4) = Inr (Fin sc)"
      "round_half_even sc = round_half_even (of_int c * 0.45 / 4)"
    using carbs_exact [OF c] by auto
  show ?thesis
    unfolding calculate_macros_def cf bind_result_def sum.case Let_def sp(1) sf(1) sc(1)
      py_round.simps sp(2) sf(2) sc(2) ..
qed

text \<open>
  Claim C4, amended. For every calorie count of magnitude at most \<open>2 ^ 31\<close>,
  \<^verbatim>\<open>calculate_macros\<close> returns the rounding of \<open>calories * 0.30 / 4\<close> as protein, of
  \<open>calories * 0.25 / 9\<close> as fat and of \<open>calories * 0.45 / 4\<close> as carbohydrates, the shares
  being those of real arithmetic; each share is rounded on its own to the nearest
  integer, a tie going to the even one. At 2439 the result is protein 183, fat 68,
  carbohydrates 274.
\<close>

theorem calculate_macros_formula:
  "(\<bar>c\<bar> \<le> 2 ^ 31 \<longrightarrow>
      calculate_macros c =
        Inr \<lparr> protein = round_half_even (of_int c * 0.30 / 4),
              fat = round_half_even (of_int c * 0.25 / 9),
              carbs = round_half_even (of_int c * 0.45 / 4) \<rparr>)
   \<and> \<bar>real_of_int (round_half_even z) - z\<bar> \<le> 1 / 2
   \<and> calculate_macros 2439 = Inr \<lparr> protein = 183, fat = 68, carbs = 274 \<rparr>"
  using calculate_macros_exact [of c] round_half_even_nearest [of z] macros_sample
  by blast

text \<open>An instance: the calorie count 2556.\<close>

theorem calculate_macros_formula_witness:
  "calculate_macros 2556 = Inr \<lparr> protein = 192, fat = 71, carbs = 288 \<rparr>"
proof -
  have "\<bar>2556 :: int\<bar> \<le> 2 ^ 31"
    by simp
  with calculate_macros_formula [of 2556]
  have "calculate_macros 2556 =
        Inr \<lparr> protein = round_half_even (of_int 2556 * 0.30 / 4),
              fat = round_half_even (of_int 2556 * 0.25 / 9),
              carbs = round_half_even (of_int 2556 * 0.45 / 4) \<rparr>"
    by blast
  then show ?thesis
    by (simp add: round_half_even_def)
qed

text \<open>
  Claim C4 as stated fails. At 8000000000000073 calories the float product with 0.30 is
  rounded, and the protein returned is 600000000000006 while the rounding of
  \<open>calories * 0.30 / 4\<close> is 600000000000005. At \<open>2 ^ 1024\<close> calories the conversion of the
  integer to a float raises \<^verbatim>\<open>OverflowError\<close>, so the function returns nothing.
\<close>

theorem calculate_macros_counterexample:
  "calculate_macros 8000000000000073
     = Inr \<lparr> protein = 600000000000006, fat = 222222222222224, carbs = 900000000000008 \<rparr>
   \<and> round_half_even (of_int 8000000000000073 * 0.30 / 4) = 600000000000005
   \<and> calculate_macros (2 ^ 1024) = Inl OverflowError"
proof -
  have c: "fl_of_int 8000000000000073 = Inr (Fin 8000000000000073)"
    using fl_of_int_small [of 8000000000000073] by simp
  have p1: "fl_mul (Fin 8000000000000073) (Fin (5404319552844595 / 18014398509481984))
      = Fin 2400000000000022"
    unfolding fl_mul.simps
    by (rule rnd_eval [where k = 51]) (simp_all add: round_half_even_def)
  have p2: "fl_div (Fin 2400000000000022) (Fin 4) = Inr (Fin (1200000000000011 / 2))"
    by (rule fl_div_eval, simp, rule trans [OF _ rnd_exact [of _ 1200000000000011 "- 1"]])
      simp_all
  have p3: "py_round (Fin (1200000000000011 / 2)) = Inr 600000000000006"
    by (simp add: round_half_even_def)
  have f1: "fl_mul (Fin 8000000000000073) (Fin 0.25) = Fin (8000000000000073 / 4)"
    unfolding fl_mul.simps
    by (rule trans [OF _ rnd_exact [of _ 8000000000000073 "- 2"]]) simp_all
  have f2: "fl_div (Fin (8000000000000073 / 4)) (Fin 9) = Inr (Fin (888888888888897 / 4))"
    by (rule fl_div_eval, simp, rule rnd_eval [where k = 47])
      (simp_all add: round_half_even_def)
  have f3: "py_round (Fin (888888888888897 / 4)) = Inr 222222222222224"
    by (simp add: round_half_even_def)
  have c1: "fl_mul (Fin 8000000000000073) (Fin (8106479329266893 / 18014398509481984))
      = Fin 3600000000000033"
    unfolding fl_mul.simps
    by (rule rnd_eval [where k = 51]) (simp_all add: round_half_even_def)
  have c2: "fl_div (Fin 3600000000000033) (Fin 4) = Inr (Fin (3600000000000033 / 4))"
    by (rule fl_div_eval, simp, rule trans [OF _ rnd_exact [of _ 3600000000000033 "- 2"]])
      simp_all
  have c3: "py_round (Fin (3600000000000033 / 4)) = Inr 900000000000008"
    by (simp add: round_half_even_def)
  have code: "calculate_macros 8000000000000073
     = Inr \<lparr> protein = 600000000000006, fat = 222222222222224, carbs = 900000000000008 \<rparr>"
    unfolding calculate_macros_def c bind_result_def sum.case Let_def literal_0_3
      literal_0_25 literal_0_45 p1 p2 p3 f1 f2 f3 c1 c2 c3 ..
  have exact: "round_half_even (of_int 8000000000000073 * 0.30 / 4) = 600000000000005"
    by (simp add: round_half_even_def)
  from code exact calculate_macros_overflow show ?thesis by blast
qed

subsection \<open>Which handler the dispatcher chooses\<close>

lemmas button_defs = my_data_label_def recalculate_label_def generate_label_def
  new_menu_label_def

lemmas command_defs = cmd_name_start_def cmd_name_cancel_def

lemma dispatch_start:
  "msg_command m = Some cmd_name_start \<Longrightarrow> dispatch r s m = cmd_start m s"
  by (simp add: dispatch_def handlers_def)

lemma dispatch_cancel:
  "msg_command m = Some cmd_name_cancel \<Longrightarrow> dispatch r s m = cmd_cancel m s"
  by (simp add: dispatch_def handlers_def command_defs)

lemma dispatch_idle:
  "no_command m \<Longrightarrow> state s = None \<Longrightarrow> dispatch r s m = (s, [], None)"
  by (simp add: dispatch_def handlers_def no_command_def)

lemma dispatch_gender:
  "no_command m \<Longrightarrow> state s = Some S_gender \<Longrightarrow> dispatch r s m = process_gender m s"
  by (simp add: dispatch_def handlers_def no_command_def)

lemma dispatch_age:
  "no_command m \<Longrightarrow> state s = Some S_age \<Longrightarrow> dispatch r s m = process_age m s"
  by (simp add: dispatch_def handlers_def no_command_def)

lemma dispatch_weight:
  "no_command m \<Longrightarrow> state s = Some S_weight \<Longrightarrow> dispatch r s m = process_weight m s"
  by (simp add: dispatch_def handlers_def no_command_def)

lemma dispatch_height:
  "no_command m \<Longrightarrow> state s = Some S_height \<Longrightarrow> dispatch r s m = process_height m s"
  by (simp add: dispatch_def handlers_def no_command_def)

lemma dispatch_activity:
  "no_command m \<Longrightarrow> state s = Some S_activity \<Longrightarrow> dispatch r s m = process_activity m s"
  by (simp add: dispatch_def handlers_def no_command_def)

lemma dispatch_goal:
  "no_command m \<Longrightarrow> state s = Some S_goal \<Longrightarrow> dispatch r s m = process_goal m s"
  by (simp add: dispatch_def handlers_def no_command_def)

lemma dispatch_menu:
  "no_command m \<Longrightarrow> state s = Some S_menu \<Longrightarrow>
   dispatch r s m =
     (if msg_text m = my_data_label then show_my_data m s
      else if msg_text m = recalculate_label then recalculate m s
      else if msg_text m = generate_label \<or> msg_text m = new_menu_label
      then generate_menu r m s
      else (s, [], None))"
  by (simp add: dispatch_def handlers_def no_command_def)

lemma no_command_plain: "no_command (plain t)"
  by (simp add: no_command_def plain_def)

subsection \<open>Cancel, restart and show-data\<close>

text \<open>
  Claim C7. In every session state, a cancel command goes to \<^verbatim>\<open>cmd_cancel\<close>, whatever
  handler the state itself would choose; it leaves the session with no state and no stored
  answer or derived value, and a start command after it begins the questionnaire at the
  gender state with nothing stored.
\<close>

theorem cancel_clears_session:
  assumes "msg_command m = Some cmd_name_cancel"
    and "msg_command m' = Some cmd_name_start"
  shows "dispatch r s m = (fresh_session, [Farewell], None)
    \<and> dispatch r' (fst (dispatch r s m)) m'
        = (\<lparr> state = Some S_gender, data = empty_data \<rparr>, [Welcome], None)"
  using assms
  by (simp add: dispatch_cancel dispatch_start cmd_cancel_def cmd_start_def fresh_session_def)

text \<open>
  The witness cancels in the weight state, where the state's own handler accepts the
  message as well.
\<close>

lemma command_message_command: "msg_command (command_message c) = Some c"
  by (simp add: command_message_def)

theorem cancel_clears_session_witness:
  "dispatch (Plan []) weight_session (command_message cmd_name_cancel)
     = (fresh_session, [Farewell], None)
   \<and> dispatch (Plan [])
        (fst (dispatch (Plan []) weight_session (command_message cmd_name_cancel)))
        (command_message cmd_name_start)
     = (\<lparr> state = Some S_gender, data = empty_data \<rparr>, [Welcome], None)
   \<and> accepts (In_state S_weight) weight_session (command_message cmd_name_cancel)"
proof -
  have "accepts (In_state S_weight) weight_session (command_message cmd_name_cancel)"
    by (simp add: weight_session_def)
  with cancel_clears_session [where r = "Plan []" and s = weight_session and r' = "Plan []",
      OF command_message_command command_message_command]
  show ?thesis by blast
qed

text \<open>
  Claim C8. In the menu state the restart button changes the state to the gender state and
  nothing else: every stored answer and derived value is as before. The next answer then
  overwrites the gender alone.
\<close>

theorem restart_keeps_answers:
  assumes "state s = Some S_menu" and "no_command m" and "msg_text m = recalculate_label"
    and "no_command m'"
  shows "dispatch r s m = (s\<lparr>state := Some S_gender\<rparr>, [Ask_gender_again], None)
    \<and> data (fst (dispatch r s m)) = data s
    \<and> dispatch r' (fst (dispatch r s m)) m'
        = (s\<lparr>data := (data s)\<lparr>gender := Some (msg_text m')\<rparr>, state := Some S_age\<rparr>,
           [Ask_age (msg_text m')], None)"
  using assms
  by (simp add: dispatch_menu dispatch_gender recalculate_def process_gender_def button_defs
      Let_def)

lemma plain_text: "msg_text (plain t) = t"
  by (simp add: plain_def)

theorem restart_keeps_answers_witness:
  "dispatch (Plan []) menu_session (plain recalculate_label)
     = (menu_session\<lparr>state := Some S_gender\<rparr>, [Ask_gender_again], None)
   \<and> data (fst (dispatch (Plan []) menu_session (plain recalculate_label)))
       = data menu_session
   \<and> dispatch (Plan []) (fst (dispatch (Plan []) menu_session (plain recalculate_label)))
        (plain female_label)
     = (menu_session\<lparr>data := (data menu_session)\<lparr>gender := Some female_label\<rparr>,
                      state := Some S_age\<rparr>,
        [Ask_age female_label], None)"
proof -
  have st: "state menu_session = Some S_menu"
    by (simp add: menu_session_def)
  show ?thesis
    using restart_keeps_answers [where r = "Plan []" and r' = "Plan []",
        OF st no_command_plain plain_text no_command_plain, of female_label]
    unfolding plain_text .
qed

text \<open>
  Claim C9. In the menu state the show-data button leaves the session as it is, and any
  number of submissions in a row, whatever the generation service would answer meanwhile,
  leave it as it is and send the same summary each time.
\<close>

lemma show_my_data_session: "fst (show_my_data m s) = s"
  by (simp add: show_my_data_def Let_def split: sum.splits)

lemma run_show_my_data:
  assumes "state s = Some S_menu" and "no_command m" and "msg_text m = my_data_label"
  shows "run s (map (\<lambda>r. (r, m)) rs)
           = (s, concat (replicate (length rs) (fst (snd (show_my_data m s)))))"
proof (induction rs)
  case Nil
  show ?case by simp
next
  case (Cons r rs)
  have d: "dispatch r s m = show_my_data m s"
    using assms by (simp add: dispatch_menu)
  obtain sent e where o: "show_my_data m s = (s, sent, e)"
    using show_my_data_session [of m s] by (cases "show_my_data m s") auto
  show ?case using Cons by (simp add: d o)
qed

theorem show_my_data_idempotent:
  assumes "state s = Some S_menu" and "no_command m" and "msg_text m = my_data_label"
  shows "dispatch r s m = show_my_data m s
    \<and> fst (dispatch r s m) = s
    \<and> run s (map (\<lambda>r. (r, m)) rs)
        = (s, concat (replicate (length rs) (fst (snd (dispatch r s m)))))"
  using assms run_show_my_data [OF assms, of rs]
  by (simp add: dispatch_menu show_my_data_session)

theorem show_my_data_idempotent_witness:
  "dispatch (Plan []) menu_session (plain my_data_label)
     = (menu_session,
        [My_data (Some male_label) (Some 30) (Some (Fin 70)) (Some (Fin 175))
           (Some activity_medium) (Some goal_maintain) 1649 2556 192 71 288], None)
   \<and> run menu_session
        [(Plan [], plain my_data_label), (RateLimitError, plain my_data_label),
         (Plan [], plain my_data_label)]
     = (menu_session,
        concat (replicate 3 (fst (snd (dispatch (Plan []) menu_session (plain my_data_label))))))"
proof -
  have sh: "show_my_data (plain my_data_label) menu_session
     = (menu_session,
        [My_data (Some male_label) (Some 30) (Some (Fin 70)) (Some (Fin 175))
           (Some activity_medium) (Some goal_maintain) 1649 2556 192 71 288], None)"
    by (simp add: show_my_data_def menu_session_def round_half_even_def)
  have st: "state menu_session = Some S_menu"
    by (simp add: menu_session_def)
  have tx: "msg_text (plain my_data_label) = my_data_label"
    by (simp add: plain_def)
  have mp: "map (\<lambda>r. (r, plain my_data_label)) [Plan [], RateLimitError, Plan []]
      = [(Plan [], plain my_data_label), (RateLimitError, plain my_data_label),
         (Plan [], plain my_data_label)]"
    by simp
  have ln: "length [Plan [], RateLimitError, Plan []] = 3"
    by simp
  show ?thesis
    using show_my_data_idempotent [where r = "Plan []"
        and rs = "[Plan [], RateLimitError, Plan []]", OF st no_command_plain tx]
    unfolding mp ln sh by blast
qed

subsection \<open>A sample conversation, step by step\<close>

text \<open>
  The start command, the six answers and the restart button, each evaluated on the session
  that the step before it leaves.
\<close>

lemmas parse_defs = py_int_def py_float_def strip_def is_space_def digit_value_def
  decimal_zeros_def digitpart_def digits_value_def split_sign_def float_number_def
  exponent_part_def scale10_def to_lower_def word_inf_def word_nan_def word_infinity_def
  replace_comma_def

lemma py_int_30: "py_int text_30 = Some 30"
  by (simp add: parse_defs text_30_def)

lemma py_float_70: "py_float (replace_comma text_70) = Some (Fin 70)"
  using rnd_int [of 70] by (simp add: parse_defs text_70_def)

lemma py_float_175: "py_float (replace_comma text_175) = Some (Fin 175)"
  using rnd_int [of 175] by (simp add: parse_defs text_175_def)

lemma step1: "dispatch r fresh_session (command_message cmd_name_start)
    = (\<lparr>state = Some S_gender, data = empty_data\<rparr>, [Welcome], None)"
  by (simp add: dispatch_start command_message_command cmd_start_def fresh_session_def)

lemma step2: "dispatch r \<lparr>state = Some S_gender, data = empty_data\<rparr> (plain male_label)
    = (\<lparr>state = Some S_age, data = empty_data\<lparr>gender := Some male_label\<rparr>\<rparr>,
       [Ask_age male_label], None)"
  by (simp add: dispatch_gender no_command_plain process_gender_def plain_text)

lemma step3: "dispatch r \<lparr>state = Some S_age, data = empty_data\<lparr>gender := Some male_label\<rparr>\<rparr>
      (plain text_30)
    = (weight_session, [Ask_weight 30], None)"
  by (simp add: dispatch_age no_command_plain process_age_def plain_text py_int_30
      weight_session_def)

lemma step4: "dispatch r weight_session (plain text_70)
    = (\<lparr>state = Some S_height,
        data = empty_data\<lparr>gender := Some male_label, age := Some 30, weight := Some (Fin 70)\<rparr>\<rparr>,
       [Ask_height (Fin 70)], None)"
  by (simp add: dispatch_weight no_command_plain process_weight_def plain_text py_float_70
      weight_session_def)

lemma step5: "dispatch r \<lparr>state = Some S_height,
        data = empty_data\<lparr>gender := Some male_label, age := Some 30, weight := Some (Fin 70)\<rparr>\<rparr>
      (plain text_175)
    = (\<lparr>state = Some S_activity,
        data = empty_data\<lparr>gender := Some male_label, age := Some 30, weight := Some (Fin 70),
                            height := Some (Fin 175)\<rparr>\<rparr>,
       [Ask_activity (Fin 175)], None)"
  by (simp add: dispatch_height no_command_plain process_height_def plain_text py_float_175)

lemma step6: "dispatch r \<lparr>state = Some S_activity,
        data = empty_data\<lparr>gender := Some male_label, age := Some 30, weight := Some (Fin 70),
                            height := Some (Fin 175)\<rparr>\<rparr>
      (plain activity_medium)
    = (\<lparr>state = Some S_goal,
        data = empty_data\<lparr>gender := Some male_label, age := Some 30, weight := Some (Fin 70),
                            height := Some (Fin 175), activity := Some activity_medium\<rparr>\<rparr>,
       [Ask_goal activity_medium], None)"
  by (simp add: dispatch_activity no_command_plain process_activity_def plain_text
      dict_contains_def ACTIVITY_COEFFICIENTS_def label_defs Let_def)

lemma daily_ex: "calculate_daily_calories (Fin 1648.75) activity_medium goal_maintain = Inr 2556"
proof -
  have a: "float_literal (spec_activity_multiplier activity_medium)
      = Fin (6980579422424269 / 4503599627370496)"
    using literal_1_55 by (simp add: spec_activity_multiplier_def label_defs)
  have g: "float_literal (spec_goal_adjustment goal_maintain) = Fin 0"
    using literal_0 by (simp add: spec_goal_adjustment_def label_defs)
  have t: "fl_mul (Fin 1648.75) (Fin (6980579422424269 / 4503599627370496))
      = Fin (40889 / 16)"
    unfolding fl_mul.simps
    by (rule rnd_eval [where k = 11]) (simp_all add: round_half_even_def)
  have s: "fl_add (Fin 1) (Fin 0) = Fin 1"
    using rnd_1 by simp
  have v: "fl_mul (Fin (40889 / 16)) (Fin 1) = Fin (40889 / 16)"
    by (rule fl_mul_one [of 40889]) simp_all
  have r: "py_round (Fin (40889 / 16)) = Inr 2556"
    by (simp add: round_half_even_def)
  show ?thesis
    unfolding daily_form a g t s v r ..
qed

lemma derive_targets_Some:
  assumes "gender d = Some g" "weight d = Some w" "height d = Some h" "age d = Some a"
    "activity d = Some act" "goal d = Some gl"
  shows "derive_targets d =
     bind_result (calculate_bmr g w h a) (\<lambda>b.
     bind_result (calculate_daily_calories b act gl) (\<lambda>dc.
     bind_result (calculate_macros dc) (\<lambda>mac. Inr (b, dc, mac))))"
  using assms by (simp add: derive_targets_def bind_result_def subscript_def)

lemma result_message_Some:
  assumes "gender d = Some g" "weight d = Some w" "height d = Some h" "age d = Some a"
    "activity d = Some act" "goal d = Some gl"
  shows "result_message d b dc mac =
     (case py_round b of
        Inl e \<Rightarrow> Inl e
      | Inr rb \<Rightarrow> Inr (Result g a w h act gl rb dc mac))"
  using assms by (simp add: result_message_def bind_result_def subscript_def)

lemma goal_data_fields:
  "gender goal_data = Some male_label" "weight goal_data = Some (Fin 70)"
  "height goal_data = Some (Fin 175)" "age goal_data = Some 30"
  "activity goal_data = Some activity_medium" "goal goal_data = Some goal_maintain"
  by (simp_all add: goal_data_def)

lemma round_bmr_ex: "py_round (Fin 1648.75) = Inr 1649"
  by (simp add: round_half_even_def)

lemma derive_ex: "derive_targets goal_data
    = Inr (Fin 1648.75, 2556, \<lparr> protein = 192, fat = 71, carbs = 288 \<rparr>)"
  by (simp only: derive_targets_Some [OF goal_data_fields] bmr_ex daily_ex macros_2556
      bind_result_def sum.case)

lemma result_ex: "result_message goal_data (Fin 1648.75) 2556 \<lparr> protein = 192, fat = 71, carbs = 288 \<rparr>
   = Inr (Result male_label 30 (Fin 70) (Fin 175) activity_medium goal_maintain 1649 2556
          \<lparr> protein = 192, fat = 71, carbs = 288 \<rparr>)"
  by (simp only: result_message_Some [OF goal_data_fields] round_bmr_ex sum.case)

lemma goal_maintain_known: "dict_contains GOAL_COEFFICIENTS goal_maintain"
  by (simp add: dict_contains_def GOAL_COEFFICIENTS_def)

lemma step7: "process_goal (plain goal_maintain)
      \<lparr>state = Some S_goal,
        data = empty_data\<lparr>gender := Some male_label, age := Some 30, weight := Some (Fin 70),
                            height := Some (Fin 175), activity := Some activity_medium\<rparr>\<rparr>
    = (menu_session,
       [Result male_label 30 (Fin 70) (Fin 175) activity_medium goal_maintain 1649 2556
          \<lparr> protein = 192, fat = 71, carbs = 288 \<rparr>], None)"
proof -
  have d: "empty_data\<lparr>gender := Some male_label, age := Some 30, weight := Some (Fin 70),
                            height := Some (Fin 175), activity := Some activity_medium,
                            goal := Some goal_maintain\<rparr> = goal_data"
    by (simp add: goal_data_def)
  have m: "\<lparr>state = Some S_menu,
      data = goal_data\<lparr>bmr := Some (Fin 1648.75), daily_calories := Some 2556,
               macros := Some \<lparr> protein = 192, fat = 71, carbs = 288 \<rparr>\<rparr>\<rparr> = menu_session"
    by (simp add: goal_data_def menu_session_def empty_data_def)
  show ?thesis
    unfolding process_goal_def plain_text Let_def
    apply (simp only: goal_maintain_known not_True_eq_False if_False session.simps d derive_ex sum.case prod.case result_ex)
    apply (simp only: m)
    done
qed

lemma restart_run:
  "fst (run fresh_session restart_conversation) = menu_session\<lparr>state := Some S_gender\<rparr>"
proof -
  have s8: "dispatch OtherException menu_session (plain recalculate_label)
      = (menu_session\<lparr>state := Some S_gender\<rparr>, [Ask_gender_again], None)"
    by (simp add: dispatch_menu no_command_plain plain_text recalculate_def button_defs
        menu_session_def)
  have s7: "dispatch OtherException \<lparr>state = Some S_goal,
        data = empty_data\<lparr>gender := Some male_label, age := Some 30, weight := Some (Fin 70),
                            height := Some (Fin 175), activity := Some activity_medium\<rparr>\<rparr>
      (plain goal_maintain)
    = (menu_session,
       [Result male_label 30 (Fin 70) (Fin 175) activity_medium goal_maintain 1649 2556
          \<lparr> protein = 192, fat = 71, carbs = 288 \<rparr>], None)"
    by (simp only: dispatch_goal [OF no_command_plain] session.simps step7)
  show ?thesis
    unfolding restart_conversation_def
    by (simp only: list.map run.simps step1 step2 step3 step4 step5 step6 s7 s8 prod.case fst_conv)
qed

lemma reachable_run: "reachable s \<Longrightarrow> reachable (fst (run s ms))"
proof (induction ms arbitrary: s)
  case Nil
  then show ?case by simp
next
  case (Cons rm ms)
  obtain r m where rm: "rm = (r, m)" by (cases rm)
  obtain s' sent e where d: "dispatch r s m = (s', sent, e)"
    by (cases "dispatch r s m")
  from Cons.prems have "reachable (fst (dispatch r s m))"
    by (rule reachable_step)
  then have "reachable (fst (run s' ms))"
    using Cons.IH by (simp add: d)
  then show ?case
    by (cases "run s' ms") (simp add: rm d)
qed

subsection \<open>The session state and the stored answers\<close>

lemma populated_before_cases:
  "populated_before s =
     (case state s of
        None \<Rightarrow> True
      | Some S_gender \<Rightarrow> True
      | Some S_age \<Rightarrow> gender (data s) \<noteq> None
      | Some S_weight \<Rightarrow> gender (data s) \<noteq> None \<and> age (data s) \<noteq> None
      | Some S_height \<Rightarrow>
          gender (data s) \<noteq> None \<and> age (data s) \<noteq> None \<and> weight (data s) \<noteq> None
      | Some S_activity \<Rightarrow>
          gender (data s) \<noteq> None \<and> age (data s) \<noteq> None \<and> weight (data s) \<noteq> None
          \<and> height (data s) \<noteq> None
      | Some S_goal \<Rightarrow>
          gender (data s) \<noteq> None \<and> age (data s) \<noteq> None \<and> weight (data s) \<noteq> None
          \<and> height (data s) \<noteq> None \<and> activity (data s) \<noteq> None
      | Some S_menu \<Rightarrow>
          gender (data s) \<noteq> None \<and> age (data s) \<noteq> None \<and> weight (data s) \<noteq> None
          \<and> height (data s) \<noteq> None \<and> activity (data s) \<noteq> None \<and> goal (data s) \<noteq> None)"
  by (auto simp: populated_before_def answers_def eval_nat_numeral
      split: option.splits UserStates.splits)

text \<open>
  Claim C1 as stated fails: after a completed questionnaire the restart button leaves the
  session in the gender state with all six answers stored.
\<close>

theorem populated_exactly_counterexample:
  "reachable (fst (run fresh_session restart_conversation))
   \<and> state (fst (run fresh_session restart_conversation)) = Some S_gender
   \<and> gender (data (fst (run fresh_session restart_conversation))) = Some male_label
   \<and> \<not> populated_exactly (fst (run fresh_session restart_conversation))"
proof -
  have "reachable (fst (run fresh_session restart_conversation))"
    by (rule reachable_run [OF reachable_fresh])
  then show ?thesis
    by (simp add: restart_run menu_session_def populated_exactly_def answers_def
        eval_nat_numeral)
qed

lemma cmd_start_populated: "populated_before (fst (cmd_start m s))"
  by (simp add: cmd_start_def populated_before_cases)

lemma cmd_cancel_populated: "populated_before (fst (cmd_cancel m s))"
  by (simp add: cmd_cancel_def populated_before_cases)

lemma process_gender_populated: "populated_before (fst (process_gender m s))"
  by (simp add: process_gender_def populated_before_cases Let_def)

lemma process_age_populated:
  "state s = Some S_age \<Longrightarrow> populated_before s \<Longrightarrow> populated_before (fst (process_age m s))"
  by (simp add: process_age_def populated_before_cases split: option.splits)

lemma process_weight_populated:
  "state s = Some S_weight \<Longrightarrow> populated_before s
   \<Longrightarrow> populated_before (fst (process_weight m s))"
  by (simp add: process_weight_def populated_before_cases split: option.splits)

lemma process_height_populated:
  "state s = Some S_height \<Longrightarrow> populated_before s
   \<Longrightarrow> populated_before (fst (process_height m s))"
  by (simp add: process_height_def populated_before_cases split: option.splits)

lemma process_activity_populated:
  "state s = Some S_activity \<Longrightarrow> populated_before s
   \<Longrightarrow> populated_before (fst (process_activity m s))"
  by (simp add: process_activity_def populated_before_cases Let_def)

lemma process_goal_populated:
  "state s = Some S_goal \<Longrightarrow> populated_before s
   \<Longrightarrow> populated_before (fst (process_goal m s))"
  by (simp add: process_goal_def populated_before_cases Let_def split: sum.splits prod.splits)

lemma menu_populated:
  "state s = Some S_menu \<Longrightarrow> populated_before s \<Longrightarrow>
   populated_before (fst (show_my_data m s)) \<and> populated_before (fst (recalculate m s))
   \<and> populated_before (fst (generate_menu r m s))"
  by (simp add: show_my_data_session recalculate_def generate_menu_def populated_before_cases)

lemma dispatch_populated:
  assumes "populated_before s"
  shows "populated_before (fst (dispatch r s m))"
proof (cases "no_command m")
  case False
  then consider "msg_command m = Some cmd_name_start" | "msg_command m = Some cmd_name_cancel"
    by (auto simp: no_command_def)
  then show ?thesis
  proof cases
    case 1
    then show ?thesis by (simp add: dispatch_start cmd_start_populated)
  next
    case 2
    then show ?thesis by (simp add: dispatch_cancel cmd_cancel_populated)
  qed
next
  case nc: True
  show ?thesis
  proof (cases "state s")
    case None
    with nc assms show ?thesis by (simp add: dispatch_idle)
  next
    case (Some st)
    show ?thesis
    proof (cases st)
      case S_gender
      with nc Some show ?thesis by (simp add: dispatch_gender process_gender_populated)
    next
      case S_age
      with nc Some assms show ?thesis by (simp add: dispatch_age process_age_populated)
    next
      case S_weight
      with nc Some assms show ?thesis by (simp add: dispatch_weight process_weight_populated)
    next
      case S_height
      with nc Some assms show ?thesis by (simp add: dispatch_height process_height_populated)
    next
      case S_activity
      with nc Some assms show ?thesis
        by (simp add: dispatch_activity process_activity_populated)
    next
      case S_goal
      with nc Some assms show ?thesis by (simp add: dispatch_goal process_goal_populated)
    next
      case S_menu
      with Some have st: "state s = Some S_menu" by simp
      from menu_populated [OF st assms] nc st assms show ?thesis
        by (simp add: dispatch_menu)
    qed
  qed
qed

lemma reachable_invariant:
  assumes "reachable s"
  shows "populated_before s"
  using assms
proof (induction rule: reachable.induct)
  case reachable_fresh
  show ?case by (simp add: fresh_session_def populated_before_cases)
next
  case (reachable_step s r m)
  then show ?case by (simp add: dispatch_populated)
qed

lemma writes_only_same: "writes_only st d d"
  by (simp add: writes_only_def)

lemma process_goal_writes:
  "writes_only (Some S_goal) (data s) (data (fst (process_goal m s)))"
  by (simp add: process_goal_def writes_only_def Let_def split: sum.splits prod.splits)

lemma dispatch_writes_only:
  assumes "msg_command m \<noteq> Some cmd_name_cancel"
  shows "writes_only (state s) (data s) (data (fst (dispatch r s m)))"
proof (cases "msg_command m = Some cmd_name_start")
  case True
  then show ?thesis by (simp add: dispatch_start cmd_start_def writes_only_same)
next
  case False
  with assms have nc: "no_command m" by (simp add: no_command_def)
  show ?thesis
  proof (cases "state s")
    case None
    with nc show ?thesis by (simp add: dispatch_idle writes_only_same)
  next
    case (Some st)
    show ?thesis
    proof (cases st)
      case S_gender
      with nc Some show ?thesis
        by (simp add: dispatch_gender process_gender_def writes_only_def Let_def)
    next
      case S_age
      with nc Some show ?thesis
        by (simp add: dispatch_age process_age_def writes_only_def split: option.splits)
    next
      case S_weight
      with nc Some show ?thesis
        by (simp add: dispatch_weight process_weight_def writes_only_def split: option.splits)
    next
      case S_height
      with nc Some show ?thesis
        by (simp add: dispatch_height process_height_def writes_only_def split: option.splits)
    next
      case S_activity
      with nc Some show ?thesis
        by (simp add: dispatch_activity process_activity_def writes_only_def Let_def)
    next
      case S_goal
      with nc Some show ?thesis
        by (simp add: dispatch_goal process_goal_writes)
    next
      case S_menu
      with nc Some show ?thesis
        by (simp add: dispatch_menu show_my_data_session recalculate_def generate_menu_def
            writes_only_same)
    qed
  qed
qed

text \<open>
  Claim C1, amended. In every reachable session, every answer collected strictly before
  the session's state, in the order gender, age, weight, height, activity, goal, is stored;
  in particular gender is stored whenever the session is in the age state. A message other
  than the cancel command changes no stored answer except the one that belongs to the
  state in which it arrives, so no answer is written out of that order. Answers at or
  after the state may be stored as well: they are left from an earlier pass, since the
  start command and the restart button go back to the gender state without clearing.
\<close>

theorem reachable_populated_before:
  assumes "reachable s" and "msg_command m \<noteq> Some cmd_name_cancel"
  shows "populated_before s
    \<and> (state s = Some S_age \<longrightarrow> gender (data s) \<noteq> None)
    \<and> writes_only (state s) (data s) (data (fst (dispatch r s m)))"
proof -
  have p: "populated_before s"
    using assms(1) by (rule reachable_invariant)
  then have "state s = Some S_age \<longrightarrow> gender (data s) \<noteq> None"
    by (auto simp: populated_before_cases)
  with p dispatch_writes_only [OF assms(2)] show ?thesis
    by blast
qed

theorem reachable_populated_before_witness:
  "reachable \<lparr>state = Some S_age, data = empty_data\<lparr>gender := Some male_label\<rparr>\<rparr>
   \<and> populated_before \<lparr>state = Some S_age, data = empty_data\<lparr>gender := Some male_label\<rparr>\<rparr>
   \<and> gender (data \<lparr>state = Some S_age, data = empty_data\<lparr>gender := Some male_label\<rparr>\<rparr>)
       = Some male_label
   \<and> msg_command (plain text_30) \<noteq> Some cmd_name_cancel
   \<and> writes_only (Some S_age) (empty_data\<lparr>gender := Some male_label\<rparr>) (data weight_session)"
proof -
  have "fst (run fresh_session
      [(OtherException, command_message cmd_name_start), (OtherException, plain male_label)])
      = \<lparr>state = Some S_age, data = empty_data\<lparr>gender := Some male_label\<rparr>\<rparr>"
    by (simp only: run.simps step1 step2 prod.case fst_conv)
  with reachable_run [OF reachable_fresh]
  have r: "reachable \<lparr>state = Some S_age, data = empty_data\<lparr>gender := Some male_label\<rparr>\<rparr>"
    by metis
  have c: "msg_command (plain text_30) \<noteq> Some cmd_name_cancel"
    by (simp add: plain_def)
  from r c reachable_populated_before [OF r c, of OtherException] show ?thesis
    by (simp add: step3)
qed

subsection \<open>Validation of the answers\<close>

lemma process_gender_any:
  "process_gender m s =
     (s\<lparr>data := (data s)\<lparr>gender := Some (msg_text m)\<rparr>, state := Some S_age\<rparr>,
      [Ask_age (msg_text m)], None)"
  by (simp add: process_gender_def Let_def)

text \<open>
  Claim C5 on the code: in the gender state a text that is neither of the two labels is
  stored as the gender and the session advances to the age state.
\<close>

theorem process_gender_accepts_unknown_label:
  "dispatch OtherException gender_session (plain text_abc)
     = (\<lparr> state = Some S_age, data = empty_data\<lparr>gender := Some text_abc\<rparr> \<rparr>,
        [Ask_age text_abc], None)
   \<and> text_abc \<noteq> male_label \<and> text_abc \<noteq> female_label"
  by (simp add: dispatch_gender no_command_plain process_gender_any plain_text
      gender_session_def) (simp add: text_abc_def label_defs)

lemma py_float_nan: "py_float (replace_comma word_nan) = Some NaN"
  by (simp add: parse_defs)

text \<open>
  Claim C6 on the code: in the weight state the text \<^verbatim>\<open>nan\<close> parses to NaN, both range
  comparisons are false for it, and it is stored as the weight while the session advances
  to the height state.
\<close>

theorem process_weight_accepts_nan:
  "dispatch OtherException weight_session (plain word_nan)
     = (\<lparr> state = Some S_height,
          data = empty_data\<lparr>gender := Some male_label, age := Some 30, weight := Some NaN\<rparr> \<rparr>,
        [Ask_height NaN], None)"
  by (simp add: dispatch_weight no_command_plain process_weight_def plain_text py_float_nan
      weight_session_def)

text \<open>
  For the age, and for a weight or height that parses to a finite number, the handlers
  accept exactly the values within the range and otherwise leave the session as it is.
\<close>

lemma process_age_accepts:
  assumes "py_int (msg_text m) = Some n" and "10 \<le> n" and "n \<le> 120"
  shows "process_age m s =
     (s\<lparr>data := (data s)\<lparr>age := Some n\<rparr>, state := Some S_weight\<rparr>, [Ask_weight n], None)"
  using assms by (simp add: process_age_def)

lemma process_age_rejects:
  assumes "py_int (msg_text m) = None \<or> (\<exists>n. py_int (msg_text m) = Some n \<and> (n < 10 \<or> 120 < n))"
  shows "fst (process_age m s) = s \<and> fst (snd (process_age m s)) \<in> {[Not_a_number], [Age_out_of_range]}"
  using assms by (auto simp: process_age_def)

lemma age_boundaries:
  "py_int [49, 48] = Some 10" "py_int [49, 50, 48] = Some 120"
  "py_int [57] = Some 9" "py_int [49, 50, 49] = Some 121"
  by (simp_all add: parse_defs)

lemma process_weight_finite:
  assumes "py_float (replace_comma (msg_text m)) = Some (Fin x)"
  shows "process_weight m s =
     (if 30 \<le> x \<and> x \<le> 300
      then (s\<lparr>data := (data s)\<lparr>weight := Some (Fin x)\<rparr>, state := Some S_height\<rparr>,
            [Ask_height (Fin x)], None)
      else (s, [Weight_out_of_range], None))"
  using assms by (auto simp: process_weight_def)

lemma process_height_finite:
  assumes "py_float (replace_comma (msg_text m)) = Some (Fin x)"
  shows "process_height m s =
     (if 100 \<le> x \<and> x \<le> 250
      then (s\<lparr>data := (data s)\<lparr>height := Some (Fin x)\<rparr>, state := Some S_activity\<rparr>,
            [Ask_activity (Fin x)], None)
      else (s, [Height_out_of_range], None))"
  using assms by (auto simp: process_height_def)

lemma process_weight_unparsed:
  "py_float (replace_comma (msg_text m)) = None \<Longrightarrow> process_weight m s = (s, [Not_a_number], None)"
  by (simp add: process_weight_def)

text \<open>
  A NaN weight makes the basal rate NaN, and rounding it raises: with such a weight stored,
  \<^verbatim>\<open>process_goal\<close> stores the goal, sends nothing and leaves the state as it is.
\<close>

lemma calculate_bmr_nan_weight:
  assumes "10 \<le> a" and "a \<le> 120"
  shows "calculate_bmr g NaN (Fin h) a = Inr NaN"
proof -
  have "fl_of_int (5 * a) = Inr (Fin (of_int (5 * a)))"
    using assms by (intro fl_of_int_small) simp
  then show ?thesis
    by (simp add: calculate_bmr_def bind_result_def fl_sub_def)
qed

lemma calculate_daily_calories_nan: "calculate_daily_calories NaN act gl = Inl ValueError"
  by (simp add: calculate_daily_calories_def Let_def)

lemma process_goal_nan_weight:
  assumes "dict_contains GOAL_COEFFICIENTS (msg_text m)"
    and "gender (data s) = Some g" and "weight (data s) = Some NaN"
    and "height (data s) = Some (Fin h)" and "age (data s) = Some a"
    and "10 \<le> a" and "a \<le> 120"
    and "activity (data s) = Some act"
  shows "process_goal m s
           = (s\<lparr>data := (data s)\<lparr>goal := Some (msg_text m)\<rparr>\<rparr>, [], Some ValueError)"
proof -
  have "derive_targets ((data s)\<lparr>goal := Some (msg_text m)\<rparr>) = Inl ValueError"
    using assms
    by (simp add: derive_targets_Some [of _ g NaN "Fin h" a act "msg_text m"]
        calculate_bmr_nan_weight calculate_daily_calories_nan bind_result_def)
  with assms(1) show ?thesis
    by (simp add: process_goal_def Let_def)
qed

subsection \<open>Splitting the generated menu\<close>

lemma whole_menu_header_length: "length whole_menu_header = 44"
  by (simp add: whole_menu_header_def)

lemma chunks_concat:
  "0 < n \<Longrightarrow> concat (map (\<lambda>i. slice xs i (i + n)) (map (\<lambda>k. k * n) [0..<m])) = take (m * n) xs"
proof (induction m)
  case 0
  show ?case by simp
next
  case (Suc m)
  have "take (m * n) xs @ take n (drop (m * n) xs) = take (m * n + n) xs"
    by (simp add: take_add)
  with Suc show ?case by (simp add: slice_def add.commute)
qed

lemma round_up_covers:
  assumes "0 < (n::nat)"
  shows "l \<le> ((l + (n - 1)) div n) * n"
proof -
  have "(l + (n - 1)) mod n < n"
    using assms by simp
  moreover have "(l + (n - 1)) div n * n + (l + (n - 1)) mod n = l + (n - 1)"
    by simp
  ultimately show ?thesis by linarith
qed

lemma py_range_4000:
  "py_range 0 l 4000 = map (\<lambda>k. k * 4000) [0..<(l + 3999) div 4000]"
  by (simp add: py_range_def add.commute)

lemma menu_parts_concat: "concat (menu_parts menu_text) = menu_text"
proof -
  have "length menu_text \<le> ((length menu_text + 3999) div 4000) * 4000"
    using round_up_covers [of 4000 "length menu_text"] by simp
  then have "take (((length menu_text + 3999) div 4000) * 4000) menu_text = menu_text"
    by simp
  then show ?thesis
    unfolding menu_parts_def py_range_4000
    using chunks_concat [of 4000 menu_text "(length menu_text + 3999) div 4000"]
    by simp
qed

lemma menu_parts_length: "p \<in> set (menu_parts menu_text) \<Longrightarrow> length p \<le> 4000"
  by (auto simp: menu_parts_def slice_def)

text \<open>
  Claim C10 on the code: a generated text of exactly 4096 characters is not split, and the
  one message that carries it, header included, has 4140 characters.
\<close>

theorem send_menu_over_limit:
  "length long_menu_text = 4096
   \<and> send_menu long_menu_text = [Menu_message (whole_menu_header @ long_menu_text)]
   \<and> length (whole_menu_header @ long_menu_text) = 4140"
  by (simp add: send_menu_def long_menu_text_def whole_menu_header_length)

end
